theory Spec2Isabelle
  imports Complex_Main "HOL-Library.Multiset" "HOL-Library.Log_Nat"
begin

section \<open>Data model of the traffic simulator\<close>

text \<open>
  The Durable Object \<open>TrafficSimulator\<close> and the Worker that routes to it (both in
  src/traffic-simulator.js) are embedded as pure functions over explicit state.
  A JavaScript number is the real number it denotes: integral ones (timestamps,
  counts, rounded latencies) are \<open>int\<close>, the others \<open>real\<close>, and every arithmetic
  operation of the code on them rounds its exact result to the nearest double
  (\<open>to_double\<close>). Strings are lists of Latin-1 code units.
\<close>

text \<open>One side of a metric pair, as the object literals of \<open>generateMetrics\<close> build it.\<close>

record snapshot =
  latency :: int
  successRate :: real
  requestsHandled :: int
  errors :: int

record metric_pair =
  cloudflare :: snapshot
  origin :: snapshot

text \<open>The object literal \<open>simulation\<close> of \<open>handleSimulateRequest\<close>.\<close>

record simulation =
  sim_id :: string
  sim_type :: string
  startTime :: int
  isActive :: bool

text \<open>Exceptions (rejected promises) that leave a handler.\<close>

datatype exn = TypeError | StorageError

text \<open>
  A promise that is awaited either settles, fulfilled or rejected, or stays pending
  for ever, and then the function awaiting it never returns.
\<close>

datatype 'a promise = Settled 'a | Pending

text \<open>
  The keys of the objects \<open>generators\<close> and \<open>fallback\<close>. \<open>generateMetrics\<close> and
  \<open>getAIExplanation\<close> are only called with a type that passed \<open>validTypes.includes\<close>,
  so their argument is one of these three tags.
\<close>

datatype scenario = Normal | Spike | Ddos

fun tag :: "scenario \<Rightarrow> string" where
  "tag Normal = ''normal''"
| "tag Spike = ''spike''"
| "tag Ddos = ''ddos''"

definition scenario_of :: "string \<Rightarrow> scenario option" where
  "scenario_of t =
     (if t = ''normal'' then Some Normal
      else if t = ''spike'' then Some Spike
      else if t = ''ddos'' then Some Ddos
      else None)"

subsection \<open>getInitialMetrics\<close>

definition getInitialMetrics :: metric_pair where
  "getInitialMetrics =
     \<lparr> cloudflare = \<lparr> latency = 100, successRate = 100, requestsHandled = 0, errors = 0 \<rparr>,
       origin = \<lparr> latency = 100, successRate = 100, requestsHandled = 0, errors = 0 \<rparr> \<rparr>"

subsection \<open>Double arithmetic\<close>

text \<open>
  Rounding of a real number to the nearest IEEE 754 binary64 value, ties to the even
  significand. A non-negative \<open>x\<close> is measured in units of \<open>2^-1074\<close>, the smallest
  positive double; \<open>ulp_units\<close> is the spacing of the doubles around it in these units:
  one unit below \<open>2^-1022\<close> (the subnormal range and the first binade), and 53
  significant bits above. Overflow to infinity (from \<open>2^1024\<close> on) is not modelled; no
  number in the code comes near it.
\<close>

definition round_half_even :: "real \<Rightarrow> int" where
  "round_half_even y =
     (let f = \<lfloor>y\<rfloor>; d = y - real_of_int f
      in if d < 1 / 2 then f else if 1 / 2 < d then f + 1 else if even f then f else f + 1)"

definition ulp_units :: "int \<Rightarrow> int" where
  "ulp_units s = (if s < 2 ^ 52 then 1 else 2 ^ nat (bitlen s - 53))"

definition round_to_grid :: "nat \<Rightarrow> real \<Rightarrow> real" where
  "round_to_grid E x =
     (let X = x * 2 ^ E; U = ulp_units \<lfloor>X\<rfloor>
      in real_of_int (round_half_even (X / real_of_int U) * U) / 2 ^ E)"

definition to_double_pos :: "real \<Rightarrow> real" where
  "to_double_pos x = round_to_grid 1074 x"

definition to_double :: "real \<Rightarrow> real" where
  "to_double x = (if x < 0 then - to_double_pos (- x) else to_double_pos x)"

text \<open>The operators \<open>+\<close>, \<open>*\<close> and \<open>/\<close> on numbers.\<close>

definition js_add :: "real \<Rightarrow> real \<Rightarrow> real" where
  "js_add a b = to_double (a + b)"

definition js_mul :: "real \<Rightarrow> real \<Rightarrow> real" where
  "js_mul a b = to_double (a * b)"

definition js_div :: "real \<Rightarrow> real \<Rightarrow> real" where
  "js_div a b = to_double (a / b)"

subsection \<open>generateMetrics\<close>

text \<open>\<open>Math.round\<close> gives the nearest integer of a double, a tie going up;
  \<open>Math.floor\<close> is \<open>floor\<close>, \<open>Math.max\<close> and \<open>Math.min\<close> are \<open>max\<close> and \<open>min\<close>.\<close>

definition math_round :: "real \<Rightarrow> int" where
  "math_round v = \<lfloor>v + 1 / 2\<rfloor>"

definition roundLatency :: "real \<Rightarrow> int" where
  "roundLatency v = math_round v"

definition roundSuccess :: "real \<Rightarrow> real" where
  "roundSuccess v = js_div (real_of_int (math_round (js_mul (max 0 (min 100 v)) 10))) 10"

text \<open>
  The three generators. \<open>rnd\<close> is the stream of doubles \<open>Math.random()\<close> returns, read
  in the order the object literal evaluates its fields.
\<close>

definition generateMetrics :: "scenario \<Rightarrow> (nat \<Rightarrow> real) \<Rightarrow> metric_pair" where
  "generateMetrics type rnd =
     (case type of
        Normal \<Rightarrow>
          \<lparr> cloudflare = \<lparr> latency = roundLatency (js_add 95 (js_mul (rnd 0) 10)),
                           successRate = 100, requestsHandled = 10, errors = 0 \<rparr>,
            origin = \<lparr> latency = roundLatency (js_add 100 (js_mul (rnd 1) 20)),
                       successRate = 100, requestsHandled = 10, errors = 0 \<rparr> \<rparr>
      | Spike \<Rightarrow>
          \<lparr> cloudflare = \<lparr> latency = roundLatency (js_add 120 (js_mul (rnd 0) 30)),
                           successRate = roundSuccess (js_add 98 (js_mul (rnd 1) 2)),
                           requestsHandled = 500, errors = \<lfloor>js_mul (rnd 2) 10\<rfloor> \<rparr>,
            origin = \<lparr> latency = roundLatency (js_add 2000 (js_mul (rnd 3) 1000)),
                       successRate = roundSuccess (js_add 40 (js_mul (rnd 4) 20)),
                       requestsHandled = 300, errors = 200 \<rparr> \<rparr>
      | Ddos \<Rightarrow>
          \<lparr> cloudflare = \<lparr> latency = roundLatency (js_add 150 (js_mul (rnd 0) 50)),
                           successRate = roundSuccess (js_add 95 (js_mul (rnd 1) 3)),
                           requestsHandled = 10000, errors = \<lfloor>js_mul (rnd 2) 500\<rfloor> \<rparr>,
            origin = \<lparr> latency = roundLatency (js_add 5000 (js_mul (rnd 3) 2000)),
                       successRate = roundSuccess (js_mul (rnd 4) 10),
                       requestsHandled = 500, errors = 9500 \<rparr> \<rparr>)"

subsection \<open>JavaScript values and strings\<close>

text \<open>
  Values that arrive as parsed JSON (request bodies, the result of \<open>env.AI.run\<close>).
  A property that is missing reads as \<open>undefined\<close>, modelled as \<open>None\<close>.
\<close>

datatype json =
    JNull
  | JBool bool
  | JNum real
  | JStr string
  | JArr "json list"
  | JObj "(string \<times> json) list"

text \<open>
  Reading one of the properties the code asks for (\<open>type\<close>, \<open>simulationId\<close>,
  \<open>response\<close>, \<open>result\<close>, \<open>output\<close>, \<open>text\<close>): only an object can own them, and
  \<open>JSON.parse\<close> keeps the last of duplicate keys.
\<close>

fun get_prop :: "json \<Rightarrow> string \<Rightarrow> json option" where
  "get_prop (JObj kvs) k = map_of (rev kvs) k"
| "get_prop v k = None"

text \<open>Optional chaining \<open>v?.k\<close>: \<open>undefined\<close> for a nullish \<open>v\<close>.\<close>

fun opt_chain :: "json option \<Rightarrow> string \<Rightarrow> json option" where
  "opt_chain None k = None"
| "opt_chain (Some JNull) k = None"
| "opt_chain (Some v) k = get_prop v k"

fun truthy :: "json option \<Rightarrow> bool" where
  "truthy None = False"
| "truthy (Some JNull) = False"
| "truthy (Some (JBool b)) = b"
| "truthy (Some (JNum n)) = (n \<noteq> 0)"
| "truthy (Some (JStr s)) = (s \<noteq> [])"
| "truthy (Some (JArr xs)) = True"
| "truthy (Some (JObj kvs)) = True"

text \<open>The operator \<open>a || b\<close>.\<close>

definition js_or :: "json option \<Rightarrow> json option \<Rightarrow> json option" where
  "js_or a b = (if truthy a then a else b)"

text \<open>White space that \<open>String.prototype.trim\<close> strips, among Latin-1 code units.\<close>

definition is_space :: "char \<Rightarrow> bool" where
  "is_space c = ((of_char c :: nat) \<in> set [9, 10, 11, 12, 13, 32, 160])"

definition trim :: "string \<Rightarrow> string" where
  "trim s = rev (dropWhile is_space (rev (dropWhile is_space s)))"

text \<open>\<open>s.slice(i, j)\<close> for \<open>0 \<le> i \<le> j\<close>.\<close>

definition slice :: "nat \<Rightarrow> nat \<Rightarrow> string \<Rightarrow> string" where
  "slice i j s = take (j - i) (drop i s)"

definition ends_with :: "string \<Rightarrow> string \<Rightarrow> bool" where
  "ends_with s p = (length p \<le> length s \<and> drop (length s - length p) s = p)"

text \<open>Decimal rendering of numbers inside template literals.\<close>

definition digit_char :: "nat \<Rightarrow> char" where
  "digit_char d = ''0123456789'' ! (d mod 10)"

fun digits :: "nat \<Rightarrow> string" where
  "digits n = (if n < 10 then [digit_char n] else digits (n div 10) @ [digit_char (n mod 10)])"

definition show_int :: "int \<Rightarrow> string" where
  "show_int n = (if n < 0 then CHR ''-'' # digits (nat (- n)) else digits (nat n))"

text \<open>
  Rendering of a success rate: exact for the doubles nearest to a non-negative number
  with at most one decimal, which is what \<open>roundSuccess\<close> and the literal 100 produce,
  e.g. \<open>98.7\<close> and \<open>100\<close>.
\<close>

definition show_rate :: "real \<Rightarrow> string" where
  "show_rate x =
     (let k = \<lfloor>x * 10 + 1 / 2\<rfloor>
      in show_int (k div 10) @ (if k mod 10 = 0 then [] else CHR ''.'' # digits (nat (k mod 10))))"


section \<open>The Durable Object TrafficSimulator\<close>

text \<open>
  What \<open>persistState\<close> writes under the key \<open>state\<close>. The constructor reads both fields
  through \<open>??\<close>, so both may be missing (\<open>None\<close>) in a stored value.
\<close>

record blob =
  b_currentSimulation :: "simulation option"
  b_metrics :: "metric_pair option"

text \<open>
  Effects of the object, in the order they happen: reading the clock, running the
  generator, the two assignments to \<open>this\<close>, the \<open>storage.put\<close>, entering
  \<open>getAIExplanation\<close> and the call \<open>env.AI.run\<close> with its prompt.
\<close>

datatype event =
    EvNow
  | EvGenerateMetrics
  | EvSetMetrics
  | EvSetCurrentSimulation
  | EvStoragePut
  | EvExplain
  | EvAiRun string

text \<open>
  The fields of \<open>this\<close>, the durable storage behind \<open>this.state.storage\<close>, and the
  record of effects so far.
\<close>

record do_state =
  currentSimulation :: "simulation option"
  metrics :: metric_pair
  storage :: "blob option"
  trace :: "event list"

text \<open>
  What becomes of a call of \<open>env.AI.run\<close>: it resolves with a value, it is rejected (an
  error of the service, or the abort that the 5000 ms timer raises through the signal
  when the binding honours it), or it never settles. The timer only calls
  \<open>controller.abort()\<close>; nothing else ends the \<open>await\<close>.
\<close>

datatype ai_outcome = Resolves json | Rejects | NeverSettles

text \<open>
  What one request reads from outside: \<open>Date.now()\<close>, the values of \<open>Math.random()\<close>,
  whether \<open>storage.put\<close> succeeds, and the binding \<open>env.AI\<close> (\<open>None\<close> when it is missing
  or has no function \<open>run\<close>).
\<close>

record do_env =
  clock :: int
  random :: "nat \<Rightarrow> real"
  put_ok :: bool
  AI :: "(string \<Rightarrow> ai_outcome) option"

datatype do_response =
    SimulateOk simulation metric_pair string int
  | StatusOk "simulation option" metric_pair int
  | ErrorResponse nat string string

fun status_code :: "do_response \<Rightarrow> nat" where
  "status_code (SimulateOk sim m ex ts) = 200"
| "status_code (StatusOk sim m ts) = 200"
| "status_code (ErrorResponse code err msg) = code"

definition emit :: "event \<Rightarrow> do_state \<Rightarrow> do_state" where
  "emit e w = w\<lparr>trace := trace w @ [e]\<rparr>"

definition validTypes :: "string list" where
  "validTypes = [''normal'', ''spike'', ''ddos'']"

text \<open>\<open>validTypes.includes(v)\<close> and \<open>typeof v === 'string'\<close>.\<close>

definition includes_value :: "string list \<Rightarrow> json option \<Rightarrow> bool" where
  "includes_value vs v = (case v of Some (JStr s) \<Rightarrow> s \<in> set vs | _ \<Rightarrow> False)"

definition is_string :: "json option \<Rightarrow> bool" where
  "is_string v = (case v of Some (JStr s) \<Rightarrow> True | _ \<Rightarrow> False)"

subsection \<open>The constructor\<close>

text \<open>
  The fields start as \<open>null\<close> and the initial metrics; inside
  \<open>blockConcurrencyWhile\<close> the stored value, when there is one, replaces them.
\<close>

definition construct :: "blob option \<Rightarrow> do_state" where
  "construct stored =
     (case stored of
        None \<Rightarrow> \<lparr> currentSimulation = None, metrics = getInitialMetrics,
                  storage = None, trace = [] \<rparr>
      | Some b \<Rightarrow>
          \<lparr> currentSimulation = b_currentSimulation b,
            metrics = (case b_metrics b of None \<Rightarrow> getInitialMetrics | Some m \<Rightarrow> m),
            storage = Some b, trace = [] \<rparr>)"

subsection \<open>persistState\<close>

definition persistState :: "do_env \<Rightarrow> do_state \<Rightarrow> (exn + unit) \<times> do_state" where
  "persistState env w =
     (let w1 = emit EvStoragePut w
      in if put_ok env
         then (Inr (), w1\<lparr>storage := Some \<lparr> b_currentSimulation = currentSimulation w1,
                                               b_metrics = Some (metrics w1) \<rparr>\<rparr>)
         else (Inl StorageError, w1))"

subsection \<open>getAIExplanation\<close>

definition fallback :: "scenario \<Rightarrow> string" where
  "fallback type =
     (case type of
        Normal \<Rightarrow>
          ''Normal traffic conditions with both systems performing optimally. Cloudflare provides marginal improvements through caching and optimization.''
      | Spike \<Rightarrow>
          ''Traffic surge overwhelming unprotected origin while Cloudflare absorbs the load. Clear demonstration of DDoS protection and auto-scaling capabilities.''
      | Ddos \<Rightarrow>
          ''Massive DDoS attack completely disabling unprotected origin. Cloudflare successfully mitigating 99.5% of malicious traffic while maintaining service availability.'')"

definition join_lines :: "string list \<Rightarrow> string" where
  "join_lines ls = (case ls of [] \<Rightarrow> [] | l # rest \<Rightarrow> l @ concat (map (\<lambda>x. CHR 0x0A # x) rest))"

definition build_prompt :: "scenario \<Rightarrow> metric_pair \<Rightarrow> string" where
  "build_prompt type m = join_lines
     [''Explain this traffic simulation in 2 sentences for a technical audience:'',
      ''Type: '' @ tag type,
      ''Cloudflare: '' @ show_int (latency (cloudflare m)) @ ''ms latency, '' @
         show_rate (successRate (cloudflare m)) @ ''% success'',
      ''Origin: '' @ show_int (latency (origin m)) @ ''ms latency, '' @
         show_rate (successRate (origin m)) @ ''% success'']"

text \<open>
  The text taken from the result of the call: the first truthy one of four places,
  else the empty string; anything that is not a string counts as empty.
\<close>

definition response_text :: "json \<Rightarrow> json option" where
  "response_text aiResult =
     js_or (js_or (js_or (js_or
       (opt_chain (Some aiResult) ''response'')
       (opt_chain (opt_chain (Some aiResult) ''result'') ''response''))
       (opt_chain (opt_chain (Some aiResult) ''result'') ''output''))
       (opt_chain (opt_chain (Some aiResult) ''result'') ''text''))
       (Some (JStr []))"

definition trimmed_text :: "json option \<Rightarrow> string" where
  "trimmed_text responseText = (case responseText of Some (JStr s) \<Rightarrow> trim s | _ \<Rightarrow> [])"

text \<open>
  The function returns once the awaited call has settled; while the call is pending
  it does not return.
\<close>

definition getAIExplanation ::
    "do_env \<Rightarrow> scenario \<Rightarrow> metric_pair \<Rightarrow> do_state \<Rightarrow> string promise \<times> do_state" where
  "getAIExplanation env type m w =
     (let w1 = emit EvExplain w
      in case AI env of
           None \<Rightarrow> (Settled (fallback type), w1)
         | Some run \<Rightarrow>
             (let prompt = build_prompt type m;
                  w2 = emit (EvAiRun prompt) w1
              in case run prompt of
                   Rejects \<Rightarrow> (Settled (fallback type), w2)
                 | NeverSettles \<Rightarrow> (Pending, w2)
                 | Resolves aiResult \<Rightarrow>
                     (let trimmed = trimmed_text (response_text aiResult)
                      in (Settled (if trimmed \<noteq> [] then trimmed else fallback type), w2))))"

subsection \<open>handleSimulateRequest and handleStatusRequest\<close>

definition invalid_type :: do_response where
  "invalid_type = ErrorResponse 400 ''Invalid type''
     ''Type must be 'normal', 'spike', or 'ddos' with a simulationId string''"

text \<open>
  \<open>body\<close> is the outcome of \<open>request.json()\<close>: \<open>None\<close> when parsing throws. Destructuring
  \<open>null\<close> throws a TypeError, which is not caught here. An exception of \<open>persistState\<close>
  leaves the function at the \<open>await\<close>, with the assignments before it already made.
  While \<open>getAIExplanation\<close> is pending the function does not return. A type that
  passed the check is one of the three keys, so \<open>generators[type]\<close> and \<open>fallback[type]\<close>
  are always own entries of these objects.
\<close>

definition handleSimulateRequest ::
    "do_env \<Rightarrow> json option \<Rightarrow> do_state \<Rightarrow> (exn + do_response) promise \<times> do_state" where
  "handleSimulateRequest env body w =
     (case body of
        None \<Rightarrow>
          (Settled (Inr (ErrorResponse 400 ''Invalid request body'' ''Expected JSON payload'')), w)
      | Some JNull \<Rightarrow> (Settled (Inl TypeError), w)
      | Some b \<Rightarrow>
          (let type = get_prop b ''type'';
               simulationId = get_prop b ''simulationId''
           in if \<not> includes_value validTypes type \<or> \<not> is_string simulationId
              then (Settled (Inr invalid_type), w)
              else (case (type, simulationId) of
                (Some (JStr t), Some (JStr sid)) \<Rightarrow>
                  (case scenario_of t of
                     None \<Rightarrow> (Settled (Inr invalid_type), w)
                   | Some sc \<Rightarrow>
                      (let timestamp = clock env;
                           w1 = emit EvNow w;
                           simulation = \<lparr> sim_id = sid, sim_type = t, startTime = timestamp,
                                          isActive = True \<rparr>;
                           w2 = emit EvGenerateMetrics w1;
                           m = generateMetrics sc (random env);
                           w3 = emit EvSetMetrics (w2\<lparr>metrics := m\<rparr>);
                           w4 = emit EvSetCurrentSimulation
                                  (w3\<lparr>currentSimulation := Some simulation\<rparr>)
                       in case persistState env w4 of
                            (Inl e, w5) \<Rightarrow> (Settled (Inl e), w5)
                          | (Inr u, w5) \<Rightarrow>
                              (case getAIExplanation env sc m w5 of
                                 (Pending, w6) \<Rightarrow> (Pending, w6)
                               | (Settled aiExplanation, w6) \<Rightarrow>
                                   (Settled (Inr (SimulateOk simulation m aiExplanation
                                                    timestamp)), w6))))
              | _ \<Rightarrow> (Settled (Inr invalid_type), w))))"

text \<open>\<open>startTime || 0\<close> is written out; the spread copies the record before
  \<open>isActive\<close> is overwritten.\<close>

definition handleStatusRequest :: "do_env \<Rightarrow> do_state \<Rightarrow> do_response" where
  "handleStatusRequest env w =
     (let now = clock env;
          simulation =
            (case currentSimulation w of
               Some cur \<Rightarrow>
                 Some (cur\<lparr>isActive :=
                   now - (if startTime cur = 0 then 0 else startTime cur) < 30 * 1000\<rparr>)
             | None \<Rightarrow> None)
      in StatusOk simulation (metrics w) now)"

subsection \<open>fetch\<close>

text \<open>
  The handlers are returned without \<open>await\<close>, so the \<open>try\<close> of \<open>fetch\<close> does not see
  their rejections: an exception of a handler is the outcome of \<open>fetch\<close>.
\<close>

definition do_fetch ::
    "do_env \<Rightarrow> string \<Rightarrow> string \<Rightarrow> json option \<Rightarrow> do_state \<Rightarrow>
       (exn + do_response) promise \<times> do_state" where
  "do_fetch env method pathname body w =
     (if method = ''POST'' \<and> ends_with pathname ''/simulate''
      then handleSimulateRequest env body w
      else if method = ''GET'' \<and> ends_with pathname ''/status''
      then (Settled (Inr (handleStatusRequest env w)), w)
      else (Settled (Inr (ErrorResponse 404 ''Not found'' [])), w))"

section \<open>The Worker and the history table\<close>

text \<open>
  A row of \<open>simulation_metrics\<close> (migrations/0001_create_tables.sql). The column \<open>id\<close> is
  \<open>row_id\<close>; \<open>created_at\<close> is never read and is left out.
\<close>

record history_row =
  row_id :: nat
  simulation_id :: string
  timestamp :: int
  simulation_type :: string
  cf_latency_ms :: int
  cf_success_rate :: real
  cf_requests_handled :: int
  cf_errors :: int
  origin_latency_ms :: int
  origin_success_rate :: real
  origin_requests_handled :: int
  origin_errors :: int
  ai_explanation :: "string option"

text \<open>The table in rowid order, and the counter that \<open>AUTOINCREMENT\<close> keeps.\<close>

record database =
  rows :: "history_row list"
  seq :: nat

definition empty_db :: database where
  "empty_db = \<lparr> rows = [], seq = 0 \<rparr>"

text \<open>\<open>INSERT\<close>: the new id is one more than the largest id that is or was in the table.\<close>

definition db_insert :: "database \<Rightarrow> history_row \<Rightarrow> database" where
  "db_insert d r =
     (let i = Suc (fold max (map row_id (rows d)) (seq d))
      in d\<lparr>rows := rows d @ [r\<lparr>row_id := i\<rparr>], seq := i\<rparr>)"

text \<open>
  \<open>SELECT id FROM simulation_metrics ORDER BY timestamp DESC LIMIT n\<close>. SQL leaves the
  order among rows of equal timestamp to the engine: \<open>scan\<close> is the order in which the
  engine visits the rows, and the sort is stable on it.
\<close>

definition select_newest ::
    "(history_row list \<Rightarrow> history_row list) \<Rightarrow> nat \<Rightarrow> history_row list \<Rightarrow> nat list" where
  "select_newest scan n rs = map row_id (take n (sort_key (\<lambda>r. - timestamp r) (scan rs)))"

text \<open>\<open>limitStoredMetrics\<close>: the \<open>DELETE\<close>, or nothing at all when the statement fails
  (the \<open>catch\<close> only logs).\<close>

definition limitStoredMetrics ::
    "(history_row list \<Rightarrow> history_row list) \<Rightarrow> bool \<Rightarrow> database \<Rightarrow> database" where
  "limitStoredMetrics scan ok d =
     (if ok
      then d\<lparr>rows := filter (\<lambda>r. row_id r \<in> set (select_newest scan 500 (rows d))) (rows d)\<rparr>
      else d)"

text \<open>
  What one request to the Worker reads from outside: its own \<open>Date.now()\<close>, the string
  \<open>Math.random().toString(36)\<close>, what the Durable Object reads, whether the \<open>INSERT\<close>
  and the \<open>DELETE\<close> succeed, and the scan order of the engine.
\<close>

record w_env =
  w_clock :: int
  random36 :: string
  actor_env :: do_env
  insert_ok :: bool
  prune_ok :: bool
  scan_order :: "history_row list \<Rightarrow> history_row list"

text \<open>The Durable Object behind the stub, the table, and the bodies sent to the stub.\<close>

record w_state =
  actor :: do_state
  db :: database
  stub_calls :: "json list"

datatype w_response =
    WSimulateOk string string metric_pair string int
  | WError nat string string

definition make_simulationId :: "w_env \<Rightarrow> string" where
  "make_simulationId env = ''sim-'' @ show_int (w_clock env) @ ''-'' @ slice 2 8 (random36 env)"

definition response_ok :: "do_response \<Rightarrow> bool" where
  "response_ok r = (200 \<le> status_code r \<and> status_code r \<le> 299)"

fun error_message :: "do_response \<Rightarrow> string" where
  "error_message (ErrorResponse code err msg) = msg"
| "error_message r = []"

definition to_row :: "string \<Rightarrow> string \<Rightarrow> metric_pair \<Rightarrow> string \<Rightarrow> int \<Rightarrow> history_row" where
  "to_row simulationId type m ex ts =
     \<lparr> row_id = 0, simulation_id = simulationId, timestamp = ts, simulation_type = type,
       cf_latency_ms = latency (cloudflare m),
       cf_success_rate = successRate (cloudflare m),
       cf_requests_handled = requestsHandled (cloudflare m),
       cf_errors = errors (cloudflare m),
       origin_latency_ms = latency (origin m),
       origin_success_rate = successRate (origin m),
       origin_requests_handled = requestsHandled (origin m),
       origin_errors = errors (origin m),
       ai_explanation = Some ex \<rparr>"

definition worker_invalid_type :: w_response where
  "worker_invalid_type = WError 400 ''Invalid type''
     (''Type must be one of: 'normal', 'spike', or 'ddos'' @ [CHR 0x27])"

definition database_error :: w_response where
  "database_error = WError 500 ''Database error'' ''Could not store metrics in D1''"

text \<open>
  \<open>handleSimulate\<close>. Only \<open>type\<close> is read from the body. A rejection of \<open>stub.fetch\<close>
  leaves the function (the caller answers 500), and while \<open>stub.fetch\<close> is pending the
  function does not return. A payload that is not the one of \<open>/simulate\<close> cannot be
  bound to the statement and ends in the \<open>catch\<close>. The pruning is started right after
  the insert and never changes the answer.
\<close>

definition handleSimulate ::
    "w_env \<Rightarrow> json option \<Rightarrow> w_state \<Rightarrow> (exn + w_response) promise \<times> w_state" where
  "handleSimulate env body s =
     (case body of
        None \<Rightarrow>
          (Settled (Inr (WError 400 ''Invalid request body'' ''Body must be valid JSON'')), s)
      | Some JNull \<Rightarrow> (Settled (Inl TypeError), s)
      | Some b \<Rightarrow>
          (let type = get_prop b ''type''
           in if \<not> includes_value validTypes type
              then (Settled (Inr worker_invalid_type), s)
              else (case type of
                Some (JStr t) \<Rightarrow>
                  (let simulationId = make_simulationId env;
                       sent = JObj [(''type'', JStr t), (''simulationId'', JStr simulationId)];
                       (doResponse, a) =
                          do_fetch (actor_env env) ''POST'' ''/simulate'' (Some sent) (actor s);
                       s1 = s\<lparr>actor := a, stub_calls := stub_calls s @ [sent]\<rparr>
                   in case doResponse of
                        Pending \<Rightarrow> (Pending, s1)
                      | Settled (Inl e) \<Rightarrow> (Settled (Inl e), s1)
                      | Settled (Inr r) \<Rightarrow>
                          if \<not> response_ok r
                          then (Settled (Inr (WError (status_code r) ''Simulation failed''
                                  (if error_message r \<noteq> [] then error_message r
                                   else ''Durable Object failed to simulate traffic''))), s1)
                          else (case r of
                            SimulateOk sim m ex ts \<Rightarrow>
                              if insert_ok env
                              then (let s2 = s1\<lparr>db := db_insert (db s1)
                                                 (to_row simulationId t m ex ts)\<rparr>;
                                        s3 = s2\<lparr>db := limitStoredMetrics (scan_order env)
                                                 (prune_ok env) (db s2)\<rparr>
                                    in (Settled (Inr (WSimulateOk simulationId t m ex ts)), s3))
                              else (Settled (Inr database_error), s1)
                          | _ \<Rightarrow> (Settled (Inr database_error), s1)))
              | _ \<Rightarrow> (Settled (Inr worker_invalid_type), s))))"


section \<open>Notions used to state the properties\<close>

text \<open>A double in \<open>[0, 1)\<close>, as \<open>Math.random()\<close> returns it.\<close>

definition is_draw :: "real \<Rightarrow> bool" where
  "is_draw r = (0 \<le> r \<and> r < 1 \<and> to_double r = r)"

text \<open>A number rounded to one decimal: the double nearest to \<open>k / 10\<close> for an integer
  \<open>k\<close> from 0 to 1000. Then one row of the table of bounds per side: latency, success
  rate, requests and errors within the given limits.\<close>

definition one_decimal :: "real \<Rightarrow> bool" where
  "one_decimal x = (x \<in> set (map (\<lambda>k. js_div (real_of_int k) 10) [0..1000]))"

definition in_range ::
    "snapshot \<Rightarrow> int \<Rightarrow> int \<Rightarrow> real \<Rightarrow> real \<Rightarrow> int \<Rightarrow> int \<Rightarrow> int \<Rightarrow> bool" where
  "in_range s lat_lo lat_hi sr_lo sr_hi reqs err_lo err_hi =
     (lat_lo \<le> latency s \<and> latency s \<le> lat_hi \<and>
      sr_lo \<le> successRate s \<and> successRate s \<le> sr_hi \<and>
      0 \<le> successRate s \<and> successRate s \<le> 100 \<and> one_decimal (successRate s) \<and>
      requestsHandled s = reqs \<and>
      err_lo \<le> errors s \<and> errors s \<le> err_hi)"


text \<open>The status code of an outcome; an exception and a pending call have none.\<close>

definition outcome_status :: "(exn + do_response) promise \<Rightarrow> nat option" where
  "outcome_status r =
     (case r of
        Pending \<Rightarrow> None
      | Settled (Inl e) \<Rightarrow> None
      | Settled (Inr resp) \<Rightarrow> Some (status_code resp))"

text \<open>The call of \<open>env.AI.run\<close> with this prompt settles, or there is no binding to call.\<close>

definition ai_settles :: "do_env \<Rightarrow> string \<Rightarrow> bool" where
  "ai_settles env prompt =
     (case AI env of None \<Rightarrow> True | Some run \<Rightarrow> run prompt \<noteq> NeverSettles)"

text \<open>The field \<open>simulation\<close> of a status payload.\<close>

fun status_simulation :: "do_response \<Rightarrow> simulation option" where
  "status_simulation (StatusOk sim m ts) = sim"
| "status_simulation r = None"

text \<open>The record inside the stored value, if any.\<close>

definition stored_simulation :: "do_state \<Rightarrow> simulation option" where
  "stored_simulation w = (case storage w of None \<Rightarrow> None | Some b \<Rightarrow> b_currentSimulation b)"

text \<open>A string that is empty or white space only.\<close>

definition blank :: "string \<Rightarrow> bool" where
  "blank s = list_all is_space s"

text \<open>The rows handed to \<open>INSERT\<close> one after the other into an empty table, with the
  ids they receive, and the table after each insert was followed by a successful
  \<open>limitStoredMetrics\<close>.\<close>

definition numbered :: "history_row list \<Rightarrow> history_row list" where
  "numbered rs = map (\<lambda>(i, r). r\<lparr>row_id := Suc i\<rparr>) (zip [0..<length rs] rs)"

definition insert_all ::
    "(history_row list \<Rightarrow> history_row list) \<Rightarrow> history_row list \<Rightarrow> database" where
  "insert_all scan rs = foldl (\<lambda>d r. limitStoredMetrics scan True (db_insert d r)) empty_db rs"

section \<open>Sample inputs\<close>

definition env_sample :: do_env where
  "env_sample = \<lparr> clock = 1000, random = (\<lambda>i. 1 / 2), put_ok = True, AI = None \<rparr>"

definition env_put_fails :: do_env where
  "env_put_fails = \<lparr> clock = 1000, random = (\<lambda>i. 1 / 2), put_ok = False, AI = None \<rparr>"

definition env_later :: do_env where
  "env_later = \<lparr> clock = 31000, random = (\<lambda>i. 1 / 2), put_ok = True, AI = None \<rparr>"

definition env_blank_ai :: do_env where
  "env_blank_ai = \<lparr> clock = 1000, random = (\<lambda>i. 1 / 2), put_ok = True,
     AI = Some (\<lambda>p. Resolves (JObj [(''response'', JStr ''  '')])) \<rparr>"

definition env_rejecting_ai :: do_env where
  "env_rejecting_ai = \<lparr> clock = 1000, random = (\<lambda>i. 1 / 2), put_ok = True,
     AI = Some (\<lambda>p. Rejects) \<rparr>"

definition env_hanging_ai :: do_env where
  "env_hanging_ai = \<lparr> clock = 1000, random = (\<lambda>i. 1 / 2), put_ok = True,
     AI = Some (\<lambda>p. NeverSettles) \<rparr>"

definition body_ddos :: json where
  "body_ddos = JObj [(''type'', JStr ''ddos''), (''simulationId'', JStr ''sim-2'')]"

definition body_empty_id :: json where
  "body_empty_id = JObj [(''type'', JStr ''normal''), (''simulationId'', JStr [])]"

definition body_flood :: json where
  "body_flood = JObj [(''type'', JStr ''flood''), (''simulationId'', JStr ''sim-3'')]"

definition row_sample :: "int \<Rightarrow> history_row" where
  "row_sample ts = to_row ''sim-1'' ''normal'' getInitialMetrics (fallback Normal) ts"

definition env_router :: w_env where
  "env_router = \<lparr> w_clock = 999, random36 = ''0.k3j5h2lmn'', actor_env = env_sample,
     insert_ok = True, prune_ok = True, scan_order = (\<lambda>t. t) \<rparr>"

definition state_empty :: w_state where
  "state_empty = \<lparr> actor = construct None, db = empty_db, stub_calls = [] \<rparr>"

definition body_with_id :: json where
  "body_with_id = JObj [(''simulationId'', JStr ''mine''), (''type'', JStr ''spike'')]"

definition rows_510 :: "history_row list" where
  "rows_510 = map (\<lambda>i. row_sample (int i)) [0..<510]"

definition rows_same_time :: "history_row list" where
  "rows_same_time = replicate 510 (row_sample 1000)"

section \<open>Rounding to doubles\<close>

lemma round_half_even_le: "y \<le> real_of_int M \<Longrightarrow> round_half_even y \<le> M"
  unfolding round_half_even_def Let_def by (auto simp: floor_le_iff; linarith)

lemma round_half_even_ge: "real_of_int M \<le> y \<Longrightarrow> M \<le> round_half_even y"
  unfolding round_half_even_def Let_def by (auto simp: le_floor_iff; linarith)

lemma round_half_even_lt: "y < real_of_int M - 1 / 2 \<Longrightarrow> round_half_even y \<le> M - 1"
  unfolding round_half_even_def Let_def by (auto simp: floor_le_iff; linarith)

lemma round_half_even_int [simp]: "round_half_even (real_of_int M) = M"
  by (simp add: round_half_even_def)


lemma ulp_units_power:
  assumes "s < 2 ^ (53 + k)"
  shows "\<exists>j. ulp_units s = 2 ^ j \<and> j \<le> k"
proof (cases "s < 2 ^ 52")
  case True
  then have "ulp_units s = 2 ^ 0" by (simp add: ulp_units_def)
  then show ?thesis by blast
next
  case False
  have "bitlen s \<le> int (53 + k)"
    using assms bitlen_le_iff_power[of s "int (53 + k)"] by (simp only: nat_int) simp
  then have "nat (bitlen s - 53) \<le> k" by simp
  moreover have "ulp_units s = 2 ^ nat (bitlen s - 53)"
    using False by (simp add: ulp_units_def)
  ultimately show ?thesis by blast
qed

lemma round_to_grid_unfold:
  assumes x: "0 \<le> x" "x < 2 ^ k" and k: "k \<le> 53" and E: "53 \<le> E"
  shows "\<exists>j. j \<le> k + (E - 53) \<and> j \<le> E \<and>
           round_to_grid E x = real_of_int (round_half_even (x * 2 ^ (E - j))) / 2 ^ (E - j)"
proof -
  have "x * 2 ^ E < 2 ^ k * 2 ^ E" using x by simp
  also have "\<dots> = 2 ^ (53 + (k + (E - 53)))" using E by (simp flip: power_add)
  finally have X: "x * 2 ^ E < 2 ^ (53 + (k + (E - 53)))" .
  have "\<lfloor>x * 2 ^ E\<rfloor> < 2 ^ (53 + (k + (E - 53)))"
    by (subst floor_less_iff) (use X in simp)
  then obtain j where j: "ulp_units \<lfloor>x * 2 ^ E\<rfloor> = 2 ^ j" "j \<le> k + (E - 53)"
    using ulp_units_power by blast
  have jE: "j \<le> E" using j(2) k E by simp
  have split: "(2::real) ^ E = 2 ^ (E - j) * 2 ^ j"
    using jE by (simp flip: power_add)
  have q: "x * 2 ^ E / 2 ^ j = x * 2 ^ (E - j)"
    by (simp add: split)
  have "round_to_grid E x =
      real_of_int (round_half_even (x * 2 ^ E / 2 ^ j) * 2 ^ j) / 2 ^ E"
    by (simp add: round_to_grid_def Let_def j(1))
  also have "\<dots> = real_of_int (round_half_even (x * 2 ^ (E - j)) * 2 ^ j) / 2 ^ E"
    by (simp only: q)
  also have "\<dots> = real_of_int (round_half_even (x * 2 ^ (E - j))) / 2 ^ (E - j)"
    by (simp add: split)
  finally show ?thesis using j(2) jE by blast
qed

lemma round_to_grid_le:
  assumes "0 \<le> x" "x \<le> real_of_int N" "N < 2 ^ 53" "53 \<le> E"
  shows "round_to_grid E x \<le> real_of_int N"
proof -
  have "x < 2 ^ 53"
  proof -
    have "real_of_int N < real_of_int (2 ^ 53)" using assms(3) by (simp only: of_int_less_iff)
    with assms(2) show ?thesis by simp
  qed
  from round_to_grid_unfold[OF assms(1) this _ assms(4)]
  obtain j where j: "j \<le> E"
    "round_to_grid E x = real_of_int (round_half_even (x * 2 ^ (E - j))) / 2 ^ (E - j)"
    by auto
  have "x * 2 ^ (E - j) \<le> real_of_int (N * 2 ^ (E - j))" using assms(2) by simp
  then have "round_half_even (x * 2 ^ (E - j)) \<le> N * 2 ^ (E - j)"
    by (rule round_half_even_le)
  then have "real_of_int (round_half_even (x * 2 ^ (E - j))) \<le> real_of_int (N * 2 ^ (E - j))"
    by (simp only: of_int_le_iff)
  then show ?thesis unfolding j(2) by (simp add: divide_le_eq)
qed

lemma round_to_grid_ge:
  assumes "0 \<le> x" "real_of_int N \<le> x" "x < 2 ^ 53" "53 \<le> E"
  shows "real_of_int N \<le> round_to_grid E x"
proof -
  from round_to_grid_unfold[OF assms(1) assms(3) _ assms(4)]
  obtain j where j: "j \<le> E"
    "round_to_grid E x = real_of_int (round_half_even (x * 2 ^ (E - j))) / 2 ^ (E - j)"
    by auto
  have "real_of_int (N * 2 ^ (E - j)) \<le> x * 2 ^ (E - j)" using assms(2) by simp
  then have "N * 2 ^ (E - j) \<le> round_half_even (x * 2 ^ (E - j))"
    by (rule round_half_even_ge)
  then have "real_of_int (N * 2 ^ (E - j)) \<le> real_of_int (round_half_even (x * 2 ^ (E - j)))"
    by (simp only: of_int_le_iff)
  then show ?thesis unfolding j(2) by (simp add: le_divide_eq)
qed

lemma round_to_grid_less:
  assumes x: "0 \<le> x" "x < 2 ^ k" and k: "k \<le> 53" and E: "53 \<le> E"
    and d: "x \<le> real_of_int N - d" "1 / 2 < d * 2 ^ (53 - k)"
  shows "round_to_grid E x < real_of_int N"
proof -
  from round_to_grid_unfold[OF x k E]
  obtain j where j: "j \<le> k + (E - 53)" "j \<le> E"
    "round_to_grid E x = real_of_int (round_half_even (x * 2 ^ (E - j))) / 2 ^ (E - j)"
    by auto
  have dpos: "0 < d"
  proof (rule ccontr)
    assume "\<not> 0 < d"
    then have "d * 2 ^ (53 - k) \<le> 0" by (simp add: mult_nonpos_nonneg)
    with d(2) show False by simp
  qed
  have "53 - k \<le> E - j" using j(1) k E by simp
  then have "(2::real) ^ (53 - k) \<le> 2 ^ (E - j)" by (intro power_increasing) simp_all
  then have "d * 2 ^ (53 - k) \<le> d * 2 ^ (E - j)" using dpos by simp
  with d(2) have half: "1 / 2 < d * 2 ^ (E - j)" by simp
  have "x * 2 ^ (E - j) \<le> (real_of_int N - d) * 2 ^ (E - j)" using d(1) by simp
  also have "\<dots> = real_of_int (N * 2 ^ (E - j)) - d * 2 ^ (E - j)" by (simp add: algebra_simps)
  also have "\<dots> < real_of_int (N * 2 ^ (E - j)) - 1 / 2" using half by simp
  finally have "round_half_even (x * 2 ^ (E - j)) \<le> N * 2 ^ (E - j) - 1"
    by (rule round_half_even_lt)
  then have "real_of_int (round_half_even (x * 2 ^ (E - j))) \<le> real_of_int (N * 2 ^ (E - j) - 1)"
    by (simp only: of_int_le_iff)
  then have "real_of_int (round_half_even (x * 2 ^ (E - j))) < real_of_int N * 2 ^ (E - j)"
    by simp
  then show ?thesis unfolding j(3) by (simp add: divide_less_eq)
qed


lemma ulp_units_binade:
  assumes "2 ^ (52 + j) \<le> s" "s < 2 ^ (53 + j)"
  shows "ulp_units s = 2 ^ j"
proof -
  have up: "bitlen s \<le> int (53 + j)"
    using assms(2) bitlen_le_iff_power[of s "int (53 + j)"] by (simp only: nat_int) simp
  have "2 ^ (nat (int (53 + j)) - 1) \<le> s" using assms(1) by (simp only: nat_int) simp
  then have lo: "int (53 + j) \<le> bitlen s"
    using bitlen_ge_iff_power[of "int (53 + j)" s] by blast
  from up lo have b: "bitlen s = int (53 + j)" by simp
  show ?thesis
  proof (cases "j = 0")
    case True
    then show ?thesis using b by (simp add: ulp_units_def)
  next
    case False
    have "(2::int) ^ 52 < 2 ^ (52 + j)" using False by (intro power_strict_increasing) simp_all
    with assms(1) have "\<not> s < 2 ^ 52" by simp
    then show ?thesis using b by (simp add: ulp_units_def)
  qed
qed

lemma round_to_grid_unit_binade:
  assumes "1 / 2 \<le> x" "x < 1" "53 \<le> E"
  shows "round_to_grid E x = real_of_int (round_half_even (x * 2 ^ 53)) / 2 ^ 53"
proof -
  define j where "j = E - 53"
  have E: "E = 53 + j" using assms(3) by (simp add: j_def)
  have lo: "(2::real) ^ (52 + j) \<le> x * 2 ^ E"
  proof -
    have "(2::real) ^ (52 + j) = 1 / 2 * 2 ^ E" by (simp add: E power_add)
    also have "\<dots> \<le> x * 2 ^ E" using assms(1) by (intro mult_right_mono) simp_all
    finally show ?thesis .
  qed
  have hi: "x * 2 ^ E < 2 ^ (53 + j)" using assms(2) by (simp add: E)
  have s1: "2 ^ (52 + j) \<le> \<lfloor>x * 2 ^ E\<rfloor>"
    by (subst le_floor_iff) (use lo in simp)
  have s2: "\<lfloor>x * 2 ^ E\<rfloor> < 2 ^ (53 + j)"
    by (subst floor_less_iff) (use hi in simp)
  have U: "ulp_units \<lfloor>x * 2 ^ E\<rfloor> = 2 ^ j" using ulp_units_binade[OF s1 s2] .
  have split: "(2::real) ^ E = 2 ^ 53 * 2 ^ j" by (simp only: E power_add)
  have q: "x * 2 ^ E / 2 ^ j = x * 2 ^ 53" by (simp add: split)
  have "round_to_grid E x = real_of_int (round_half_even (x * 2 ^ E / 2 ^ j) * 2 ^ j) / 2 ^ E"
    by (simp add: round_to_grid_def Let_def U)
  also have "\<dots> = real_of_int (round_half_even (x * 2 ^ 53) * 2 ^ j) / 2 ^ E"
    by (simp only: q)
  also have "\<dots> = real_of_int (round_half_even (x * 2 ^ 53)) / 2 ^ 53"
    by (simp add: split)
  finally show ?thesis .
qed

lemma to_double_nonneg_eq: "0 \<le> x \<Longrightarrow> to_double x = round_to_grid 1074 x"
  by (simp add: to_double_def to_double_pos_def)

lemma to_double_le:
  assumes "0 \<le> x" "x \<le> real_of_int N" "N < 2 ^ 53"
  shows "to_double x \<le> real_of_int N"
  unfolding to_double_nonneg_eq[OF assms(1)]
  by (rule round_to_grid_le[OF assms]) simp

lemma to_double_ge:
  assumes "0 \<le> x" "real_of_int N \<le> x" "x < 2 ^ 53"
  shows "real_of_int N \<le> to_double x"
  unfolding to_double_nonneg_eq[OF assms(1)]
  by (rule round_to_grid_ge[OF assms]) simp

lemma to_double_less:
  assumes "0 \<le> x" "x < 2 ^ k" "k \<le> 53" "x \<le> real_of_int N - d" "1 / 2 < d * 2 ^ (53 - k)"
  shows "to_double x < real_of_int N"
  unfolding to_double_nonneg_eq[OF assms(1)]
  by (rule round_to_grid_less[OF assms(1,2,3) _ assms(4,5)]) simp

lemma to_double_of_int:
  assumes "0 \<le> n" "n < 2 ^ 53"
  shows "to_double (real_of_int n) = real_of_int n"
proof (rule antisym)
  show "to_double (real_of_int n) \<le> real_of_int n"
    using assms by (intro to_double_le) simp_all
  have "real_of_int n < real_of_int (2 ^ 53)" using assms(2) by (simp only: of_int_less_iff)
  then show "real_of_int n \<le> to_double (real_of_int n)"
    using assms(1) by (intro to_double_ge) simp_all
qed

lemma to_double_unit_binade:
  assumes "1 / 2 \<le> x" "x < 1"
  shows "to_double x = real_of_int (round_half_even (x * 2 ^ 53)) / 2 ^ 53"
proof -
  have "0 \<le> x" using assms(1) by simp
  from to_double_nonneg_eq[OF this] round_to_grid_unit_binade[OF assms, of 1074]
  show ?thesis by simp
qed

lemma to_double_half: "to_double (1 / 2) = 1 / 2"
proof -
  have "to_double (1 / 2) = real_of_int (round_half_even (real_of_int (2 ^ 52))) / 2 ^ 53"
    using to_double_unit_binade[of "1 / 2"] by simp
  also have "\<dots> = 1 / 2" by (simp only: round_half_even_int) simp
  finally show ?thesis .
qed

lemma double_below_one:
  assumes "0 \<le> r" "r < 1" "to_double r = r"
  shows "r \<le> 1 - 1 / 2 ^ 53"
proof (cases "r < 1 / 2")
  case True
  then show ?thesis by simp
next
  case False
  then have h: "1 / 2 \<le> r" by simp
  define M where "M = round_half_even (r * 2 ^ 53)"
  have "r = real_of_int M / 2 ^ 53"
    using to_double_unit_binade[OF h assms(2)] assms(3) by (simp add: M_def)
  then have r: "r * 2 ^ 53 = real_of_int M" by simp
  have "real_of_int M < real_of_int (2 ^ 53)" using assms(2) r[symmetric] by simp
  then have "M < 2 ^ 53" by (simp only: of_int_less_iff)
  then have "M \<le> 2 ^ 53 - 1" by simp
  then have "real_of_int M \<le> real_of_int (2 ^ 53 - 1)" by (simp only: of_int_le_iff)
  then have "r * 2 ^ 53 \<le> 2 ^ 53 - 1" using r by simp
  then show ?thesis by (simp add: field_simps)
qed

section \<open>Metric generator\<close>

lemma roundLatency_bounds:
  assumes "real_of_int lo \<le> v" "v \<le> real_of_int hi"
  shows "lo \<le> roundLatency v \<and> roundLatency v \<le> hi"
  using assms unfolding roundLatency_def math_round_def by (simp add: le_floor_iff floor_le_iff)

lemma js_mul_draw:
  assumes "0 \<le> r" "r \<le> 1" "0 \<le> w" "w < 2 ^ 53"
  shows "0 \<le> js_mul r (real_of_int w) \<and> js_mul r (real_of_int w) \<le> real_of_int w"
proof -
  have p: "0 \<le> r * real_of_int w" using assms by simp
  have "r * real_of_int w \<le> 1 * real_of_int w"
    using assms by (intro mult_right_mono) auto
  then have q: "r * real_of_int w \<le> real_of_int w" by simp
  have "real_of_int w < real_of_int (2 ^ 53)" using assms(4) by (simp only: of_int_less_iff)
  with q have b: "r * real_of_int w < 2 ^ 53" by simp
  have "real_of_int 0 \<le> to_double (r * real_of_int w)"
    using p b by (intro to_double_ge) simp_all
  moreover have "to_double (r * real_of_int w) \<le> real_of_int w"
    using p q assms(4) by (intro to_double_le) simp_all
  ultimately show ?thesis by (simp add: js_mul_def)
qed

lemma js_add_bounds:
  assumes "0 \<le> a" "real_of_int a \<le> real_of_int lo + p" "real_of_int lo + p \<le> real_of_int b"
    "b < 2 ^ 53"
  shows "real_of_int a \<le> js_add (real_of_int lo) p \<and> js_add (real_of_int lo) p \<le> real_of_int b"
proof -
  have nn: "0 \<le> real_of_int lo + p" using assms(1,2) by simp
  have "real_of_int b < real_of_int (2 ^ 53)" using assms(4) by (simp only: of_int_less_iff)
  with assms(3) have lt: "real_of_int lo + p < 2 ^ 53" by simp
  have "real_of_int a \<le> to_double (real_of_int lo + p)"
    using nn assms(2) lt by (intro to_double_ge) simp_all
  moreover have "to_double (real_of_int lo + p) \<le> real_of_int b"
    using nn assms(3,4) by (intro to_double_le) simp_all
  ultimately show ?thesis by (simp add: js_add_def)
qed

lemma draw_latency:
  assumes "0 \<le> r" "r \<le> 1" "0 \<le> lo" "0 \<le> w" "lo + w < 2 ^ 53"
  shows "lo \<le> roundLatency (js_add (real_of_int lo) (js_mul r (real_of_int w))) \<and>
         roundLatency (js_add (real_of_int lo) (js_mul r (real_of_int w))) \<le> lo + w"
proof -
  have w: "w < 2 ^ 53" using assms(3,5) by simp
  note p = js_mul_draw[OF assms(1,2,4) w]
  have "real_of_int lo \<le> js_add (real_of_int lo) (js_mul r (real_of_int w)) \<and>
        js_add (real_of_int lo) (js_mul r (real_of_int w)) \<le> real_of_int (lo + w)"
    using p assms(3,5) by (intro js_add_bounds) simp_all
  then show ?thesis by (intro roundLatency_bounds) simp_all
qed

text \<open>The success rate that \<open>roundSuccess\<close> returns, for a value between two whole
  numbers of percent.\<close>

lemma roundSuccess_bounds:
  assumes "real_of_int a \<le> v" "v \<le> real_of_int b" "0 \<le> a" "b \<le> 100"
  shows "real_of_int a \<le> roundSuccess v \<and> roundSuccess v \<le> real_of_int b \<and>
         one_decimal (roundSuccess v)"
proof -
  define c where "c = max 0 (min 100 v)"
  have c: "real_of_int a \<le> c" "c \<le> real_of_int b" "0 \<le> c" "c \<le> 100"
    using assms by (auto simp: c_def max_def min_def)
  define p where "p = js_mul c 10"
  have c10: "0 \<le> c * 10" "c * 10 < 2 ^ 53" using c by simp_all
  have "real_of_int (a * 10) \<le> to_double (c * 10)"
    using c10 c(1) by (intro to_double_ge) simp_all
  moreover have "to_double (c * 10) \<le> real_of_int (b * 10)"
    using c10 c(2) assms(4) by (intro to_double_le) simp_all
  ultimately have p: "real_of_int (a * 10) \<le> p" "p \<le> real_of_int (b * 10)"
    by (simp_all add: p_def js_mul_def)
  define k where "k = math_round p"
  have k: "a * 10 \<le> k" "k \<le> b * 10"
    using p unfolding k_def math_round_def by (simp_all add: le_floor_iff floor_le_iff)
  have r: "roundSuccess v = js_div (real_of_int k) 10"
    by (simp add: roundSuccess_def k_def p_def c_def)
  have q: "0 \<le> real_of_int k / 10" "real_of_int k / 10 < 2 ^ 53"
    using k assms(3,4) by simp_all
  have "real_of_int a \<le> real_of_int k / 10" using k(1) by simp
  then have lo: "real_of_int a \<le> to_double (real_of_int k / 10)"
    using q by (intro to_double_ge) simp_all
  have "real_of_int k / 10 \<le> real_of_int b" using k(2) by simp
  then have hi: "to_double (real_of_int k / 10) \<le> real_of_int b"
    using q assms(4) by (intro to_double_le) simp_all
  have "0 \<le> k \<and> k \<le> 1000" using k assms(3,4) by simp
  then have "js_div (real_of_int k) 10 \<in> (\<lambda>k. js_div (real_of_int k) 10) ` {0..1000}"
    by (intro imageI) simp
  then have od: "one_decimal (roundSuccess v)" by (simp add: one_decimal_def r)
  from lo hi od show ?thesis by (simp add: r js_div_def)
qed

lemma one_decimal_100: "one_decimal 100"
proof -
  have "js_div (real_of_int 1000) 10 = 100"
    using to_double_of_int[of 100] by (simp add: js_div_def)
  moreover have "js_div (real_of_int 1000) 10 \<in> (\<lambda>k. js_div (real_of_int k) 10) ` {0..1000}"
    by (intro imageI) simp
  ultimately show ?thesis by (simp add: one_decimal_def)
qed

lemma draw_success:
  assumes "0 \<le> r" "r \<le> 1" "0 \<le> a" "0 \<le> w" "a + w \<le> 100"
  shows "real_of_int a \<le> roundSuccess (js_add (real_of_int a) (js_mul r (real_of_int w))) \<and>
         roundSuccess (js_add (real_of_int a) (js_mul r (real_of_int w))) \<le> real_of_int (a + w) \<and>
         one_decimal (roundSuccess (js_add (real_of_int a) (js_mul r (real_of_int w))))"
proof -
  have w: "w < 2 ^ 53" using assms(3,5) by simp
  note p = js_mul_draw[OF assms(1,2,4) w]
  have "real_of_int a \<le> js_add (real_of_int a) (js_mul r (real_of_int w)) \<and>
        js_add (real_of_int a) (js_mul r (real_of_int w)) \<le> real_of_int (a + w)"
    using p assms(3,5) by (intro js_add_bounds) simp_all
  then show ?thesis using assms(3,5) by (intro roundSuccess_bounds) simp_all
qed

text \<open>A draw is at most the largest double below 1, so its product with 10 or 500
  rounds to a double below 10 or 500.\<close>

lemma draw_bounds: "is_draw r \<Longrightarrow> 0 \<le> r \<and> r \<le> 1 \<and> r \<le> 1 - 1 / 2 ^ 53"
  using double_below_one[of r] by (auto simp: is_draw_def)

lemma floor_draw_10:
  assumes "is_draw r"
  shows "0 \<le> \<lfloor>js_mul r 10\<rfloor> \<and> \<lfloor>js_mul r 10\<rfloor> \<le> 9"
proof -
  note d = draw_bounds[OF assms]
  have nn: "0 \<le> r * 10" using d by simp
  have "real_of_int 0 \<le> to_double (r * 10)" using nn d by (intro to_double_ge) simp_all
  then have lo: "0 \<le> \<lfloor>js_mul r 10\<rfloor>" by (simp add: js_mul_def)
  have up: "r * 10 \<le> real_of_int 10 - 10 / 2 ^ 53" using d by simp
  have "to_double (r * 10) < real_of_int 10"
    using nn d by (intro to_double_less[where k = 4 and d = "10 / 2 ^ 53", OF _ _ _ up]) simp_all
  then have "\<lfloor>js_mul r 10\<rfloor> < 10" by (simp add: js_mul_def floor_less_iff)
  with lo show ?thesis by simp
qed

lemma floor_draw_500:
  assumes "is_draw r"
  shows "0 \<le> \<lfloor>js_mul r 500\<rfloor> \<and> \<lfloor>js_mul r 500\<rfloor> \<le> 499"
proof -
  note d = draw_bounds[OF assms]
  have nn: "0 \<le> r * 500" using d by simp
  have "real_of_int 0 \<le> to_double (r * 500)" using nn d by (intro to_double_ge) simp_all
  then have lo: "0 \<le> \<lfloor>js_mul r 500\<rfloor>" by (simp add: js_mul_def)
  have up: "r * 500 \<le> real_of_int 500 - 500 / 2 ^ 53" using d by simp
  have "to_double (r * 500) < real_of_int 500"
    using nn d by (intro to_double_less[where k = 9 and d = "500 / 2 ^ 53", OF _ _ _ up]) simp_all
  then have "\<lfloor>js_mul r 500\<rfloor> < 500" by (simp add: js_mul_def floor_less_iff)
  with lo show ?thesis by simp
qed


lemma normal_bounds:
  assumes "\<forall>i. is_draw (rnd i)"
  shows "in_range (cloudflare (generateMetrics Normal rnd)) 95 105 100 100 10 0 0 \<and>
         in_range (origin (generateMetrics Normal rnd)) 100 120 100 100 10 0 0"
proof -
  have d: "\<And>i. 0 \<le> rnd i" "\<And>i. rnd i \<le> 1" using assms draw_bounds by blast+
  show ?thesis
    using draw_latency[OF d(1) d(2), of 95 10 0] draw_latency[OF d(1) d(2), of 100 20 1]
      one_decimal_100
    by (simp add: generateMetrics_def in_range_def)
qed

lemma spike_bounds:
  assumes "\<forall>i. is_draw (rnd i)"
  shows "in_range (cloudflare (generateMetrics Spike rnd)) 120 150 98 100 500 0 9 \<and>
         in_range (origin (generateMetrics Spike rnd)) 2000 3000 40 60 300 200 200"
proof -
  have d: "\<And>i. 0 \<le> rnd i" "\<And>i. rnd i \<le> 1" using assms draw_bounds by blast+
  have e: "is_draw (rnd 2)" using assms by blast
  show ?thesis
    using draw_latency[OF d(1) d(2), of 120 30 0] draw_latency[OF d(1) d(2), of 2000 1000 3]
      draw_success[OF d(1) d(2), of 98 2 1] draw_success[OF d(1) d(2), of 40 20 4]
      floor_draw_10[OF e]
    by (simp add: generateMetrics_def in_range_def)
qed

lemma ddos_bounds:
  assumes "\<forall>i. is_draw (rnd i)"
  shows "in_range (cloudflare (generateMetrics Ddos rnd)) 150 200 95 98 10000 0 499 \<and>
         in_range (origin (generateMetrics Ddos rnd)) 5000 7000 0 10 500 9500 9500"
proof -
  have d: "\<And>i. 0 \<le> rnd i" "\<And>i. rnd i \<le> 1" using assms draw_bounds by blast+
  have e: "is_draw (rnd 2)" using assms by blast
  have "real_of_int 0 \<le> js_mul (rnd 4) (real_of_int 10) \<and>
        js_mul (rnd 4) (real_of_int 10) \<le> real_of_int 10"
    using js_mul_draw[OF d(1) d(2), of 10 4] by simp
  then have o: "real_of_int 0 \<le> roundSuccess (js_mul (rnd 4) (real_of_int 10)) \<and>
        roundSuccess (js_mul (rnd 4) (real_of_int 10)) \<le> real_of_int 10 \<and>
        one_decimal (roundSuccess (js_mul (rnd 4) (real_of_int 10)))"
    by (intro roundSuccess_bounds) simp_all
  show ?thesis
    using draw_latency[OF d(1) d(2), of 150 50 0] draw_latency[OF d(1) d(2), of 5000 2000 3]
      draw_success[OF d(1) d(2), of 95 3 1] o floor_draw_500[OF e]
    by (simp add: generateMetrics_def in_range_def)
qed

text \<open>
  C4. For each of the three scenario tags and every sequence of doubles in \<open>[0, 1)\<close> as
  random draws, \<open>generateMetrics\<close>, computing in double arithmetic, returns a metric
  pair whose fields lie within the bounds of the table for that scenario: integer
  latencies, success rates that are rounded to one decimal and lie within \<open>[0, 100]\<close>,
  fixed request counts, error counts in their range (for ddos: unprotected success
  rate in \<open>[0, 10]\<close>, errors 9500, requests 500).
\<close>

theorem generateMetrics_within_bounds:
  assumes "\<forall>i. is_draw (rnd i)"
  shows "scenario_of ''normal'' = Some Normal \<and>
         in_range (cloudflare (generateMetrics Normal rnd)) 95 105 100 100 10 0 0 \<and>
         in_range (origin (generateMetrics Normal rnd)) 100 120 100 100 10 0 0 \<and>
         scenario_of ''spike'' = Some Spike \<and>
         in_range (cloudflare (generateMetrics Spike rnd)) 120 150 98 100 500 0 9 \<and>
         in_range (origin (generateMetrics Spike rnd)) 2000 3000 40 60 300 200 200 \<and>
         scenario_of ''ddos'' = Some Ddos \<and>
         in_range (cloudflare (generateMetrics Ddos rnd)) 150 200 95 98 10000 0 499 \<and>
         in_range (origin (generateMetrics Ddos rnd)) 5000 7000 0 10 500 9500 9500"
  using normal_bounds[OF assms] spike_bounds[OF assms] ddos_bounds[OF assms]
  by (simp add: scenario_of_def)

theorem generateMetrics_within_bounds_witness:
  "is_draw (1 / 2) \<and>
   in_range (cloudflare (generateMetrics Ddos (\<lambda>i. 1 / 2))) 150 200 95 98 10000 0 499 \<and>
   in_range (origin (generateMetrics Ddos (\<lambda>i. 1 / 2))) 5000 7000 0 10 500 9500 9500"
proof -
  have h: "is_draw (1 / 2)" using to_double_half by (simp add: is_draw_def)
  then have "\<forall>i::nat. is_draw ((\<lambda>i. 1 / 2) i)" by simp
  from generateMetrics_within_bounds[OF this] h show ?thesis by blast
qed

section \<open>The simulate and status operations\<close>

lemma fallback_nonempty: "fallback sc \<noteq> []"
  by (cases sc) (simp_all add: fallback_def)

lemma scenario_of_valid:
  "t \<in> set validTypes \<Longrightarrow> \<exists>sc. scenario_of t = Some sc \<and> tag sc = t"
  by (auto simp: validTypes_def scenario_of_def)

lemma trim_blank:
  assumes "blank s"
  shows "trim s = []"
proof -
  have "list_all is_space s \<Longrightarrow> dropWhile is_space s = []"
    by (induction s) auto
  then have e: "dropWhile is_space s = []"
    using assms by (simp add: blank_def)
  show ?thesis unfolding trim_def e by simp
qed

lemma getAIExplanation_trace:
  "trace (snd (getAIExplanation env sc m w)) =
     trace w @ [EvExplain] @ (case AI env of None \<Rightarrow> [] | Some run \<Rightarrow> [EvAiRun (build_prompt sc m)])"
  by (simp add: getAIExplanation_def emit_def Let_def split: option.splits ai_outcome.splits)

lemma getAIExplanation_fields:
  "currentSimulation (snd (getAIExplanation env sc m w)) = currentSimulation w \<and>
   metrics (snd (getAIExplanation env sc m w)) = metrics w \<and>
   storage (snd (getAIExplanation env sc m w)) = storage w"
  by (simp add: getAIExplanation_def emit_def Let_def split: option.splits ai_outcome.splits)

lemma getAIExplanation_settled:
  assumes "ai_settles env (build_prompt sc m)"
  shows "\<exists>ex. fst (getAIExplanation env sc m w) = Settled ex \<and> ex \<noteq> []"
  using assms fallback_nonempty[of sc]
  by (auto simp: getAIExplanation_def ai_settles_def Let_def
           split: option.splits ai_outcome.splits)

lemma getAIExplanation_pending:
  assumes "\<not> ai_settles env (build_prompt sc m)"
  shows "fst (getAIExplanation env sc m w) = Pending"
  using assms
  by (auto simp: getAIExplanation_def ai_settles_def Let_def
           split: option.splits ai_outcome.splits)

lemma valid_body_strings:
  assumes "includes_value validTypes (get_prop b ''type'')" "is_string (get_prop b ''simulationId'')"
  shows "\<exists>t sc sid. get_prop b ''type'' = Some (JStr t) \<and> t \<in> set validTypes \<and>
           scenario_of t = Some sc \<and>
           get_prop b ''simulationId'' = Some (JStr sid) \<and> b \<noteq> JNull"
proof -
  have "\<exists>t sid. get_prop b ''type'' = Some (JStr t) \<and> t \<in> set validTypes \<and>
           get_prop b ''simulationId'' = Some (JStr sid) \<and> b \<noteq> JNull"
    using assms by (auto simp: includes_value_def is_string_def split: option.splits json.splits)
  then obtain t sid where b: "get_prop b ''type'' = Some (JStr t)" "t \<in> set validTypes"
      "get_prop b ''simulationId'' = Some (JStr sid)" "b \<noteq> JNull"
    by blast
  with scenario_of_valid[OF b(2)] show ?thesis by blast
qed

lemma simulate_success:
  assumes ty: "get_prop b ''type'' = Some (JStr t)" and v: "t \<in> set validTypes"
    and sc: "scenario_of t = Some sc"
    and sid: "get_prop b ''simulationId'' = Some (JStr sid)"
    and ok: "put_ok env"
  shows "handleSimulateRequest env (Some b) w =
     (let sim = \<lparr> sim_id = sid, sim_type = t, startTime = clock env, isActive = True \<rparr>;
          m = generateMetrics sc (random env);
          w5 = w\<lparr> metrics := m, currentSimulation := Some sim,
                  trace := trace w @ [EvNow, EvGenerateMetrics, EvSetMetrics,
                                       EvSetCurrentSimulation, EvStoragePut],
                  storage := Some \<lparr> b_currentSimulation = Some sim, b_metrics = Some m \<rparr> \<rparr>
      in ((case fst (getAIExplanation env sc m w5) of
             Pending \<Rightarrow> Pending
           | Settled ex \<Rightarrow> Settled (Inr (SimulateOk sim m ex (clock env)))),
          snd (getAIExplanation env sc m w5)))"
proof -
  have nn: "b \<noteq> JNull" using ty by (cases b) auto
  show ?thesis
    using nn ty v sc sid ok
    by (cases b)
       (simp_all add: handleSimulateRequest_def includes_value_def is_string_def Let_def
          persistState_def emit_def split_beta split: promise.splits)
qed

lemma simulate_put_failure:
  assumes ty: "get_prop b ''type'' = Some (JStr t)" and v: "t \<in> set validTypes"
    and sc: "scenario_of t = Some sc"
    and sid: "get_prop b ''simulationId'' = Some (JStr sid)"
    and ok: "\<not> put_ok env"
  shows "handleSimulateRequest env (Some b) w =
     (Settled (Inl StorageError),
      w\<lparr> metrics := generateMetrics sc (random env),
         currentSimulation := Some \<lparr> sim_id = sid, sim_type = t, startTime = clock env,
                                      isActive = True \<rparr>,
         trace := trace w @ [EvNow, EvGenerateMetrics, EvSetMetrics,
                             EvSetCurrentSimulation, EvStoragePut] \<rparr>)"
proof -
  have nn: "b \<noteq> JNull" using ty by (cases b) auto
  show ?thesis
    using nn ty v sc sid ok
    by (cases b)
       (simp_all add: handleSimulateRequest_def includes_value_def is_string_def Let_def
          persistState_def emit_def split_beta)
qed

lemma simulate_rejected:
  assumes "\<not> includes_value validTypes (get_prop b ''type'') \<or>
           \<not> is_string (get_prop b ''simulationId'')" and "b \<noteq> JNull"
  shows "handleSimulateRequest env (Some b) w = (Settled (Inr invalid_type), w)"
  using assms by (cases b) (auto simp: handleSimulateRequest_def Let_def)

lemmas sample_defs = env_sample_def env_put_fails_def env_later_def env_blank_ai_def
  env_rejecting_ai_def env_hanging_ai_def body_ddos_def body_empty_id_def body_flood_def

lemmas eval_defs = handleSimulateRequest_def includes_value_def is_string_def validTypes_def
  scenario_of_def generateMetrics_def persistState_def
  emit_def getAIExplanation_def fallback_def construct_def getInitialMetrics_def
  outcome_status_def Let_def

text \<open>
  C1 (as amended). When the durable write fails, a valid simulate request ends with
  the exception of \<open>storage.put\<close>; the stored value is untouched and the explanation is
  never asked for, but the fields in memory already hold the new simulation and the
  new metrics: nothing is rolled back.
\<close>

theorem storage_failure_keeps_new_state:
  assumes "includes_value validTypes (get_prop b ''type'')"
    and "is_string (get_prop b ''simulationId'')"
    and "\<not> put_ok env"
  shows "\<exists>t sc sid m.
     get_prop b ''type'' = Some (JStr t) \<and> get_prop b ''simulationId'' = Some (JStr sid) \<and>
     scenario_of t = Some sc \<and> m = generateMetrics sc (random env) \<and>
     handleSimulateRequest env (Some b) w =
       (Settled (Inl StorageError),
        w\<lparr> metrics := m,
           currentSimulation := Some \<lparr> sim_id = sid, sim_type = t, startTime = clock env,
                                        isActive = True \<rparr>,
           trace := trace w @ [EvNow, EvGenerateMetrics, EvSetMetrics,
                               EvSetCurrentSimulation, EvStoragePut] \<rparr>)"
proof -
  obtain t sc sid where b: "get_prop b ''type'' = Some (JStr t)" "t \<in> set validTypes"
      "scenario_of t = Some sc" "get_prop b ''simulationId'' = Some (JStr sid)"
    using valid_body_strings[OF assms(1,2)] by blast
  show ?thesis
    using simulate_put_failure[OF b(1) b(2) b(3) b(4) assms(3)] b by blast
qed

theorem storage_failure_keeps_new_state_witness:
  "includes_value validTypes (get_prop body_ddos ''type'') \<and>
   is_string (get_prop body_ddos ''simulationId'') \<and>
   \<not> put_ok env_put_fails \<and>
   fst (handleSimulateRequest env_put_fails (Some body_ddos) (construct None))
     = Settled (Inl StorageError) \<and>
   storage (snd (handleSimulateRequest env_put_fails (Some body_ddos) (construct None))) = None \<and>
   map_option sim_id
     (currentSimulation (snd (handleSimulateRequest env_put_fails (Some body_ddos) (construct None))))
     = Some ''sim-2''"
proof -
  have h1: "includes_value validTypes (get_prop body_ddos ''type'')"
    by (simp add: body_ddos_def includes_value_def validTypes_def)
  have h2: "is_string (get_prop body_ddos ''simulationId'')"
    by (simp add: body_ddos_def is_string_def)
  have h3: "\<not> put_ok env_put_fails" by (simp add: env_put_fails_def)
  from storage_failure_keeps_new_state[OF h1 h2 h3, of "construct None"]
  obtain t sid m where r: "get_prop body_ddos ''simulationId'' = Some (JStr sid)"
     "handleSimulateRequest env_put_fails (Some body_ddos) (construct None) =
       (Settled (Inl StorageError),
        (construct None)\<lparr> metrics := m,
           currentSimulation := Some \<lparr> sim_id = sid, sim_type = t, startTime = clock env_put_fails,
                                        isActive = True \<rparr>,
           trace := trace (construct None) @ [EvNow, EvGenerateMetrics, EvSetMetrics,
                               EvSetCurrentSimulation, EvStoragePut] \<rparr>)"
    by blast
  from r(1) have "sid = ''sim-2''" by (simp add: body_ddos_def)
  with r(2) h1 h2 h3 show ?thesis by (simp add: construct_def)
qed

text \<open>
  C1 as stated fails: with a failing put, the simulation and the metrics in memory
  differ from their values before the call.
\<close>

theorem rollback_counterexample:
  "fst (handleSimulateRequest env_put_fails (Some body_ddos) (construct None))
     = Settled (Inl StorageError) \<and>
   currentSimulation (snd (handleSimulateRequest env_put_fails (Some body_ddos) (construct None)))
     \<noteq> currentSimulation (construct None) \<and>
   metrics (snd (handleSimulateRequest env_put_fails (Some body_ddos) (construct None)))
     \<noteq> metrics (construct None)"
  by (simp add: sample_defs eval_defs)

lemma simulate_ok_result:
  assumes "includes_value validTypes (get_prop b ''type'')"
    and "is_string (get_prop b ''simulationId'')"
    and "put_ok env"
  shows "\<exists>t sc sid m.
     get_prop b ''type'' = Some (JStr t) \<and> get_prop b ''simulationId'' = Some (JStr sid) \<and>
     scenario_of t = Some sc \<and> m = generateMetrics sc (random env) \<and>
     (ai_settles env (build_prompt sc m) \<longrightarrow>
        (\<exists>ex. ex \<noteq> [] \<and>
           fst (handleSimulateRequest env (Some b) w) =
             Settled (Inr (SimulateOk
               \<lparr> sim_id = sid, sim_type = t, startTime = clock env, isActive = True \<rparr>
               m ex (clock env))))) \<and>
     (\<not> ai_settles env (build_prompt sc m) \<longrightarrow>
        fst (handleSimulateRequest env (Some b) w) = Pending) \<and>
     trace (snd (handleSimulateRequest env (Some b) w)) =
       trace w @ [EvNow, EvGenerateMetrics, EvSetMetrics, EvSetCurrentSimulation,
                  EvStoragePut, EvExplain] @
       (case AI env of None \<Rightarrow> [] | Some run \<Rightarrow> [EvAiRun (build_prompt sc m)]) \<and>
     currentSimulation (snd (handleSimulateRequest env (Some b) w)) =
       Some \<lparr> sim_id = sid, sim_type = t, startTime = clock env, isActive = True \<rparr> \<and>
     metrics (snd (handleSimulateRequest env (Some b) w)) = m \<and>
     storage (snd (handleSimulateRequest env (Some b) w)) =
       Some \<lparr> b_currentSimulation =
                Some \<lparr> sim_id = sid, sim_type = t, startTime = clock env, isActive = True \<rparr>,
              b_metrics = Some m \<rparr>"
proof -
  obtain t sc sid where b: "get_prop b ''type'' = Some (JStr t)" "t \<in> set validTypes"
      "scenario_of t = Some sc" "get_prop b ''simulationId'' = Some (JStr sid)"
    using valid_body_strings[OF assms(1,2)] by blast
  define m where "m = generateMetrics sc (random env)"
  define sim where "sim = \<lparr> sim_id = sid, sim_type = t, startTime = clock env, isActive = True \<rparr>"
  define w5 where "w5 = w\<lparr> metrics := m, currentSimulation := Some sim,
                  trace := trace w @ [EvNow, EvGenerateMetrics, EvSetMetrics,
                                       EvSetCurrentSimulation, EvStoragePut],
                  storage := Some \<lparr> b_currentSimulation = Some sim, b_metrics = Some m \<rparr> \<rparr>"
  have run: "handleSimulateRequest env (Some b) w =
      ((case fst (getAIExplanation env sc m w5) of
             Pending \<Rightarrow> Pending
           | Settled ex \<Rightarrow> Settled (Inr (SimulateOk sim m ex (clock env)))),
       snd (getAIExplanation env sc m w5))"
    using simulate_success[OF b(1) b(2) b(3) b(4) assms(3), of w]
    unfolding Let_def sim_def w5_def m_def .
  have s: "\<exists>ex. ex \<noteq> [] \<and> fst (handleSimulateRequest env (Some b) w) =
             Settled (Inr (SimulateOk sim m ex (clock env)))"
    if "ai_settles env (build_prompt sc m)"
    using getAIExplanation_settled[OF that, of w5] unfolding run by auto
  have p: "fst (handleSimulateRequest env (Some b) w) = Pending"
    if "\<not> ai_settles env (build_prompt sc m)"
    using getAIExplanation_pending[OF that, of w5] unfolding run by simp
  have tr: "trace (snd (handleSimulateRequest env (Some b) w)) =
       trace w @ [EvNow, EvGenerateMetrics, EvSetMetrics, EvSetCurrentSimulation,
                  EvStoragePut, EvExplain] @
       (case AI env of None \<Rightarrow> [] | Some run \<Rightarrow> [EvAiRun (build_prompt sc m)])"
    unfolding run by (simp add: getAIExplanation_trace w5_def)
  have fl: "currentSimulation (snd (handleSimulateRequest env (Some b) w)) = Some sim"
     "metrics (snd (handleSimulateRequest env (Some b) w)) = m"
     "storage (snd (handleSimulateRequest env (Some b) w)) =
        Some \<lparr> b_currentSimulation = Some sim, b_metrics = Some m \<rparr>"
    unfolding run by (simp_all add: getAIExplanation_fields w5_def)
  show ?thesis
    using b(1) b(3) b(4) s p tr fl m_def unfolding sim_def by blast
qed




text \<open>
  C3 (as amended). A body (other than \<open>null\<close>) whose \<open>type\<close> is not one of the three tags
  or whose \<open>simulationId\<close> is not a string is answered with 400 and the state is left
  exactly as it was; a body that is not JSON is answered with 400 as well, and the
  body \<open>null\<close> ends in a TypeError, both without any change. The empty string is an
  accepted id.
\<close>

theorem invalid_request_rejected:
  assumes "\<not> includes_value validTypes (get_prop b ''type'') \<or>
           \<not> is_string (get_prop b ''simulationId'')"
    and "b \<noteq> JNull"
  shows "handleSimulateRequest env (Some b) w = (Settled (Inr invalid_type), w) \<and>
         status_code invalid_type = 400 \<and>
         handleSimulateRequest env None w =
           (Settled (Inr (ErrorResponse 400 ''Invalid request body'' ''Expected JSON payload'')),
            w) \<and>
         handleSimulateRequest env (Some JNull) w = (Settled (Inl TypeError), w)"
  using simulate_rejected[OF assms]
  by (simp add: invalid_type_def handleSimulateRequest_def)

theorem invalid_request_rejected_witness:
  "\<not> includes_value validTypes (get_prop body_flood ''type'') \<and>
   body_flood \<noteq> JNull \<and>
   handleSimulateRequest env_sample (Some body_flood) (construct None) =
     (Settled (Inr invalid_type), construct None)"
proof -
  have h1: "\<not> includes_value validTypes (get_prop body_flood ''type'') \<or>
    \<not> is_string (get_prop body_flood ''simulationId'')"
    by (simp add: body_flood_def includes_value_def validTypes_def)
  have h2: "body_flood \<noteq> JNull" by (simp add: body_flood_def)
  have h3: "\<not> includes_value validTypes (get_prop body_flood ''type'')"
    by (simp add: body_flood_def includes_value_def validTypes_def)
  from invalid_request_rejected[OF h1 h2] h2 h3 show ?thesis by blast
qed

text \<open>
  C3 as stated fails: a request with the empty string as id is accepted and replaces
  the current simulation.
\<close>

theorem empty_id_counterexample:
  "get_prop body_empty_id ''simulationId'' = Some (JStr []) \<and>
   outcome_status (fst (handleSimulateRequest env_sample (Some body_empty_id) (construct None)))
     = Some 200 \<and>
   map_option sim_id
     (currentSimulation (snd (handleSimulateRequest env_sample (Some body_empty_id) (construct None))))
     = Some [] \<and>
   currentSimulation (snd (handleSimulateRequest env_sample (Some body_empty_id) (construct None)))
     \<noteq> currentSimulation (construct None)"
  by (simp add: sample_defs eval_defs)

text \<open>
  C5 (as amended). For every scenario tag and all metrics: when there is no binding,
  or the call of \<open>env.AI.run\<close> settles, \<open>getAIExplanation\<close> returns a non-empty string,
  and it returns the canned explanation of that scenario when the binding is missing,
  when the call is rejected (an error, or the abort after the time budget) and when
  the text of the response is empty or white space only. When the call never settles,
  \<open>getAIExplanation\<close> does not return.
\<close>

theorem explanation_when_call_settles:
  "(ai_settles env (build_prompt sc m) \<longrightarrow>
      (\<exists>ex. fst (getAIExplanation env sc m w) = Settled ex \<and> ex \<noteq> [])) \<and>
   fallback sc \<noteq> [] \<and>
   (AI env = None \<longrightarrow> fst (getAIExplanation env sc m w) = Settled (fallback sc)) \<and>
   (\<forall>run. AI env = Some run \<and> run (build_prompt sc m) = Rejects \<longrightarrow>
      fst (getAIExplanation env sc m w) = Settled (fallback sc)) \<and>
   (\<forall>run r s. AI env = Some run \<and> run (build_prompt sc m) = Resolves r \<and>
      response_text r = Some (JStr s) \<and> blank s \<longrightarrow>
      fst (getAIExplanation env sc m w) = Settled (fallback sc)) \<and>
   (\<forall>run. AI env = Some run \<and> run (build_prompt sc m) = NeverSettles \<longrightarrow>
      fst (getAIExplanation env sc m w) = Pending)"
proof -
  have blank_case: "fst (getAIExplanation env sc m w) = Settled (fallback sc)"
    if "AI env = Some run" "run (build_prompt sc m) = Resolves r"
       "response_text r = Some (JStr s)" "blank s" for run r s
  proof -
    have "trimmed_text (response_text r) = []"
      using that(3) trim_blank[OF that(4)] by (simp add: trimmed_text_def)
    then show ?thesis using that(1,2) by (simp add: getAIExplanation_def Let_def)
  qed
  have settled: "ai_settles env (build_prompt sc m) \<longrightarrow>
      (\<exists>ex. fst (getAIExplanation env sc m w) = Settled ex \<and> ex \<noteq> [])"
    using getAIExplanation_settled[of env sc m w] by blast
  show ?thesis
    using settled fallback_nonempty[of sc] blank_case
    by (auto simp: getAIExplanation_def Let_def)
qed

theorem explanation_when_call_settles_witness:
  "ai_settles env_blank_ai (build_prompt Ddos getInitialMetrics) \<and>
   fst (getAIExplanation env_sample Ddos getInitialMetrics (construct None))
     = Settled (fallback Ddos) \<and>
   fst (getAIExplanation env_rejecting_ai Ddos getInitialMetrics (construct None))
     = Settled (fallback Ddos) \<and>
   fst (getAIExplanation env_blank_ai Ddos getInitialMetrics (construct None))
     = Settled (fallback Ddos) \<and>
   fst (getAIExplanation env_hanging_ai Ddos getInitialMetrics (construct None)) = Pending \<and>
   fallback Ddos \<noteq> []"
proof -
  have a: "AI env_sample = None" by (simp add: env_sample_def)
  have b: "AI env_rejecting_ai = Some (\<lambda>p. Rejects)" by (simp add: env_rejecting_ai_def)
  have c: "AI env_blank_ai = Some (\<lambda>p. Resolves (JObj [(''response'', JStr ''  '')]))"
    by (simp add: env_blank_ai_def)
  have d: "response_text (JObj [(''response'', JStr ''  '')]) = Some (JStr ''  '') \<and> blank ''  ''"
    by (simp add: response_text_def js_or_def blank_def is_space_def)
  have e: "AI env_hanging_ai = Some (\<lambda>p. NeverSettles)" by (simp add: env_hanging_ai_def)
  have s: "ai_settles env_blank_ai (build_prompt Ddos getInitialMetrics)"
    by (simp add: ai_settles_def env_blank_ai_def)
  from explanation_when_call_settles[of env_sample Ddos getInitialMetrics "construct None"] a
  have 1: "fst (getAIExplanation env_sample Ddos getInitialMetrics (construct None))
     = Settled (fallback Ddos)"
    by blast
  from explanation_when_call_settles[of env_rejecting_ai Ddos getInitialMetrics "construct None"] b
  have 2: "fst (getAIExplanation env_rejecting_ai Ddos getInitialMetrics (construct None))
     = Settled (fallback Ddos)"
    by blast
  from explanation_when_call_settles[of env_blank_ai Ddos getInitialMetrics "construct None"] c d
  have 3: "fst (getAIExplanation env_blank_ai Ddos getInitialMetrics (construct None))
     = Settled (fallback Ddos)"
    by blast
  from explanation_when_call_settles[of env_hanging_ai Ddos getInitialMetrics "construct None"] e
  have 4: "fst (getAIExplanation env_hanging_ai Ddos getInitialMetrics (construct None)) = Pending"
    by blast
  from explanation_when_call_settles[of env_sample Ddos getInitialMetrics "construct None"]
  have 5: "fallback Ddos \<noteq> []" by blast
  from s 1 2 3 4 5 show ?thesis by blast
qed

text \<open>
  C5 as stated fails: with a binding whose call never settles, \<open>getAIExplanation\<close> has
  made its one call and does not return, neither the canned explanation nor anything
  else; the simulate request that awaits it does not return either.
\<close>

theorem explanation_never_returns_counterexample:
  "fst (getAIExplanation env_hanging_ai Ddos getInitialMetrics (construct None)) = Pending \<and>
   fst (getAIExplanation env_hanging_ai Ddos getInitialMetrics (construct None))
     \<noteq> Settled (fallback Ddos) \<and>
   trace (snd (getAIExplanation env_hanging_ai Ddos getInitialMetrics (construct None)))
     = [EvExplain, EvAiRun (build_prompt Ddos getInitialMetrics)] \<and>
   fst (handleSimulateRequest env_hanging_ai (Some body_ddos) (construct None)) = Pending"
  by (simp add: sample_defs eval_defs)

lemma status_200_valid:
  assumes "outcome_status (fst (handleSimulateRequest env body w)) = Some 200"
  shows "\<exists>b. body = Some b \<and> includes_value validTypes (get_prop b ''type'') \<and>
           is_string (get_prop b ''simulationId'') \<and> put_ok env"
proof (cases body)
  case None
  with assms show ?thesis by (simp add: handleSimulateRequest_def outcome_status_def)
next
  case (Some b)
  show ?thesis
  proof (cases "b = JNull")
    case True
    with assms Some show ?thesis by (simp add: handleSimulateRequest_def outcome_status_def)
  next
    case nn: False
    show ?thesis
    proof (cases "includes_value validTypes (get_prop b ''type'') \<and>
                  is_string (get_prop b ''simulationId'')")
      case False
      then have "handleSimulateRequest env (Some b) w = (Settled (Inr invalid_type), w)"
        using simulate_rejected[of b env w] nn by blast
      with assms Some show ?thesis by (simp add: outcome_status_def invalid_type_def)
    next
      case True
      show ?thesis
      proof (cases "put_ok env")
        case True
        with \<open>includes_value validTypes (get_prop b ''type'') \<and>
                  is_string (get_prop b ''simulationId'')\<close> Some show ?thesis by simp
      next
        case False
        obtain t sc sid where b: "get_prop b ''type'' = Some (JStr t)" "t \<in> set validTypes"
          "scenario_of t = Some sc" "get_prop b ''simulationId'' = Some (JStr sid)"
          using valid_body_strings True by blast
        from simulate_put_failure[OF b(1) b(2) b(3) b(4) False, of w] assms Some
        show ?thesis by (simp add: outcome_status_def)
      qed
    qed
  qed
qed

text \<open>
  C7 (as amended). A status request changes nothing in the object; the record it
  returns is the stored one with \<open>isActive\<close> replaced by \<open>now - startTime < 30000\<close>. The
  record itself carries a field \<open>isActive\<close>, set to true when a simulate request
  succeeds, both in memory and in the stored value.
\<close>

theorem isActive_recomputed_on_read:
  "snd (do_fetch env ''GET'' ''/status'' body w) = w \<and>
   fst (do_fetch env ''GET'' ''/status'' body w) = Settled (Inr (handleStatusRequest env w)) \<and>
   status_simulation (handleStatusRequest env w) =
     map_option (\<lambda>cur. cur\<lparr>isActive := clock env - startTime cur < 30000\<rparr>) (currentSimulation w) \<and>
   (outcome_status (fst (handleSimulateRequest env body w)) = Some 200 \<longrightarrow>
      map_option isActive (currentSimulation (snd (handleSimulateRequest env body w))) = Some True \<and>
      map_option isActive (stored_simulation (snd (handleSimulateRequest env body w))) = Some True)"
proof -
  have a: "snd (do_fetch env ''GET'' ''/status'' body w) = w \<and>
           fst (do_fetch env ''GET'' ''/status'' body w) = Settled (Inr (handleStatusRequest env w))"
    by (simp add: do_fetch_def ends_with_def)
  have b: "status_simulation (handleStatusRequest env w) =
     map_option (\<lambda>cur. cur\<lparr>isActive := clock env - startTime cur < 30000\<rparr>) (currentSimulation w)"
    by (cases "currentSimulation w") (simp_all add: handleStatusRequest_def Let_def)
  have c: "map_option isActive (currentSimulation (snd (handleSimulateRequest env body w))) = Some True \<and>
      map_option isActive (stored_simulation (snd (handleSimulateRequest env body w))) = Some True"
    if h: "outcome_status (fst (handleSimulateRequest env body w)) = Some 200"
  proof -
    obtain b where v: "body = Some b" "includes_value validTypes (get_prop b ''type'')"
       "is_string (get_prop b ''simulationId'')" "put_ok env"
      using status_200_valid[OF h] by blast
    from simulate_ok_result[OF v(2) v(3) v(4), of w] v(1)
    show ?thesis by (auto simp: stored_simulation_def)
  qed
  from a b c show ?thesis by blast
qed

theorem isActive_recomputed_on_read_witness:
  "outcome_status (fst (handleSimulateRequest env_sample (Some body_ddos) (construct None))) = Some 200 \<and>
   map_option isActive
     (currentSimulation (snd (handleSimulateRequest env_sample (Some body_ddos) (construct None))))
     = Some True \<and>
   map_option isActive
     (stored_simulation (snd (handleSimulateRequest env_sample (Some body_ddos) (construct None))))
     = Some True \<and>
   snd (do_fetch env_later ''GET'' ''/status'' None (construct None)) = construct None"
proof -
  have h: "outcome_status (fst (handleSimulateRequest env_sample (Some body_ddos) (construct None))) = Some 200"
    by (simp add: sample_defs eval_defs)
  from isActive_recomputed_on_read[of env_sample "Some body_ddos" "construct None"] h
    isActive_recomputed_on_read[of env_later None "construct None"]
  show ?thesis by blast
qed

text \<open>
  C7 as stated fails: \<open>isActive\<close> is a stored field of the record, in memory and in the
  persisted state, and it stays true there when the flag computed at read time is
  false.
\<close>

theorem stored_isActive_counterexample:
  "map_option isActive
     (currentSimulation (snd (handleSimulateRequest env_sample (Some body_ddos) (construct None))))
     = Some True \<and>
   map_option isActive
     (stored_simulation (snd (handleSimulateRequest env_sample (Some body_ddos) (construct None))))
     = Some True \<and>
   map_option isActive
     (status_simulation (handleStatusRequest env_later
        (snd (handleSimulateRequest env_sample (Some body_ddos) (construct None)))))
     = Some False"
  by (simp add: sample_defs eval_defs stored_simulation_def handleStatusRequest_def)

lemma persist_then_construct:
  assumes "fst (persistState env w) = Inr ()"
  shows "currentSimulation (construct (storage (snd (persistState env w)))) = currentSimulation w \<and>
         metrics (construct (storage (snd (persistState env w)))) = metrics w \<and>
         currentSimulation (snd (persistState env w)) = currentSimulation w \<and>
         metrics (snd (persistState env w)) = metrics w"
  using assms by (auto simp: persistState_def emit_def construct_def Let_def split: if_splits)

lemma status_depends_on_fields:
  "currentSimulation a = currentSimulation b \<Longrightarrow> metrics a = metrics b \<Longrightarrow>
   handleStatusRequest env a = handleStatusRequest env b"
  by (simp add: handleStatusRequest_def)

text \<open>
  C8. A fresh object constructed from the value that \<open>persistState\<close> wrote answers a
  status request, at any read time, exactly as the object that wrote it; the same
  holds after a whole successful simulate request. With nothing stored the
  constructor yields the initial state and status answers from it.
\<close>

theorem restore_reproduces_status:
  "(fst (persistState env w) = Inr () \<longrightarrow>
      handleStatusRequest env' (construct (storage (snd (persistState env w)))) =
      handleStatusRequest env' (snd (persistState env w))) \<and>
   (outcome_status (fst (handleSimulateRequest env body w)) = Some 200 \<longrightarrow>
      handleStatusRequest env' (construct (storage (snd (handleSimulateRequest env body w)))) =
      handleStatusRequest env' (snd (handleSimulateRequest env body w))) \<and>
   construct None = \<lparr> currentSimulation = None, metrics = getInitialMetrics,
                      storage = None, trace = [] \<rparr> \<and>
   handleStatusRequest env' (construct None) = StatusOk None getInitialMetrics (clock env')"
proof -
  have a: "handleStatusRequest env' (construct (storage (snd (persistState env w)))) =
      handleStatusRequest env' (snd (persistState env w))"
    if h: "fst (persistState env w) = Inr ()"
    using persist_then_construct[OF h] by (intro status_depends_on_fields) simp_all
  have b: "handleStatusRequest env' (construct (storage (snd (handleSimulateRequest env body w)))) =
      handleStatusRequest env' (snd (handleSimulateRequest env body w))"
    if h: "outcome_status (fst (handleSimulateRequest env body w)) = Some 200"
  proof -
    obtain b where v: "body = Some b" "includes_value validTypes (get_prop b ''type'')"
       "is_string (get_prop b ''simulationId'')" "put_ok env"
      using status_200_valid[OF h] by blast
    from simulate_ok_result[OF v(2) v(3) v(4), of w] v(1)
    show ?thesis
      by (intro status_depends_on_fields) (auto simp: construct_def)
  qed
  have c: "handleStatusRequest env' (construct None) = StatusOk None getInitialMetrics (clock env')"
    by (simp add: handleStatusRequest_def construct_def)
  from a b c show ?thesis by (simp add: construct_def)
qed

theorem restore_reproduces_status_witness:
  "fst (persistState env_sample (snd (handleSimulateRequest env_sample (Some body_ddos) (construct None))))
      = Inr () \<and>
   handleStatusRequest env_later
     (construct (storage (snd (persistState env_sample
        (snd (handleSimulateRequest env_sample (Some body_ddos) (construct None))))))) =
   handleStatusRequest env_later
     (snd (persistState env_sample
        (snd (handleSimulateRequest env_sample (Some body_ddos) (construct None))))) \<and>
   status_simulation (handleStatusRequest env_later
     (construct (storage (snd (handleSimulateRequest env_sample (Some body_ddos) (construct None))))))
     = Some \<lparr> sim_id = ''sim-2'', sim_type = ''ddos'', startTime = 1000, isActive = False \<rparr>"
proof -
  have h: "fst (persistState env_sample (snd (handleSimulateRequest env_sample (Some body_ddos) (construct None))))
      = Inr ()"
    by (simp add: persistState_def env_sample_def Let_def)
  have k: "outcome_status (fst (handleSimulateRequest env_sample (Some body_ddos) (construct None))) = Some 200"
    by (simp add: sample_defs eval_defs)
  have e: "status_simulation (handleStatusRequest env_later
             (snd (handleSimulateRequest env_sample (Some body_ddos) (construct None))))
     = Some \<lparr> sim_id = ''sim-2'', sim_type = ''ddos'', startTime = 1000, isActive = False \<rparr>"
    by (simp add: sample_defs eval_defs handleStatusRequest_def)
  from restore_reproduces_status[of env_sample
         "snd (handleSimulateRequest env_sample (Some body_ddos) (construct None))" env_later
         "Some body_ddos"] h
  have 1: "handleStatusRequest env_later
     (construct (storage (snd (persistState env_sample
        (snd (handleSimulateRequest env_sample (Some body_ddos) (construct None))))))) =
   handleStatusRequest env_later
     (snd (persistState env_sample
        (snd (handleSimulateRequest env_sample (Some body_ddos) (construct None)))))"
    by blast
  from restore_reproduces_status[of env_sample "construct None" env_later "Some body_ddos"] k
  have 2: "handleStatusRequest env_later
      (construct (storage (snd (handleSimulateRequest env_sample (Some body_ddos) (construct None))))) =
      handleStatusRequest env_later (snd (handleSimulateRequest env_sample (Some body_ddos) (construct None)))"
    by blast
  from h 1 2 e show ?thesis by simp
qed

section \<open>The Worker: forwarding and history retention\<close>

lemma fold_max_bounded: "\<forall>x\<in>set xs. x \<le> a \<Longrightarrow> fold max xs (a::nat) = a"
  by (induction xs arbitrary: a) (auto simp: max_def)

lemma sorted_take_drop:
  assumes "sorted (map f ys)"
  shows "\<forall>a\<in>set (take n ys). \<forall>b\<in>set (drop n ys). f a \<le> f b"
proof -
  have "sorted (map f (take n ys) @ map f (drop n ys))"
    using assms by (simp flip: map_append)
  then show ?thesis by (auto simp: sorted_append)
qed

text \<open>What the \<open>DELETE\<close> keeps, for a table with distinct ids.\<close>

lemma prune_props:
  assumes perm: "mset (scan T) = mset T" and dist: "distinct (map row_id T)"
  defines "K \<equiv> filter (\<lambda>r. row_id r \<in> set (select_newest scan 500 T)) T"
  shows "set K \<subseteq> set T"
    and "length K = min 500 (length T)"
    and "\<forall>k\<in>set K. \<forall>e\<in>set T - set K. timestamp e \<le> timestamp k"
    and "distinct (map row_id K)"
proof -
  define srt where "srt = sort_key (\<lambda>r. - timestamp r) (scan T)"
  define S where "S = take 500 srt"
  have set_srt: "set srt = set T" using mset_eq_setD[OF perm] by (simp add: srt_def)
  have len_srt: "length srt = length T" using mset_eq_length[OF perm] by (simp add: srt_def)
  have dT: "distinct T" using dist by (simp add: distinct_map)
  have d_srt: "distinct srt" using mset_eq_imp_distinct_iff[OF perm] dT by (simp add: srt_def)
  have inj: "inj_on row_id (set T)" using dist by (simp add: distinct_map)
  have S_sub: "set S \<subseteq> set T" using set_srt set_take_subset[of 500 srt] by (auto simp: S_def)
  have sel: "select_newest scan 500 T = map row_id S"
    by (simp add: select_newest_def S_def srt_def)
  have setK: "set K = set S"
  proof
    show "set K \<subseteq> set S"
    proof
      fix r assume "r \<in> set K"
      then have r: "r \<in> set T" "row_id r \<in> row_id ` set S" by (auto simp: K_def sel)
      then obtain s where s: "s \<in> set S" "row_id r = row_id s" by auto
      with S_sub r(1) inj have "r = s" by (auto dest: inj_onD)
      with s show "r \<in> set S" by simp
    qed
    show "set S \<subseteq> set K" using S_sub by (auto simp: K_def sel)
  qed
  show "set K \<subseteq> set T" using setK S_sub by simp
  have dK: "distinct K" using dT by (simp add: K_def)
  have dS: "distinct S" using d_srt by (simp add: S_def)
  have "length K = card (set K)" using dK by (simp add: distinct_card)
  also have "\<dots> = length S" using dS setK by (simp add: distinct_card)
  also have "\<dots> = min 500 (length T)" by (simp add: S_def len_srt min.commute)
  finally show "length K = min 500 (length T)" .
  have srtd: "sorted (map (\<lambda>r. - timestamp r) srt)" by (simp add: srt_def)
  have split: "set T = set S \<union> set (drop 500 srt)"
    using set_srt set_append[of "take 500 srt" "drop 500 srt"] by (simp add: S_def)
  show "\<forall>k\<in>set K. \<forall>e\<in>set T - set K. timestamp e \<le> timestamp k"
  proof (intro ballI)
    fix k e assume k: "k \<in> set K" and e: "e \<in> set T - set K"
    from k setK have "k \<in> set (take 500 srt)" by (simp add: S_def)
    moreover from e setK split have "e \<in> set (drop 500 srt)" by auto
    ultimately have "- timestamp k \<le> - timestamp e"
      using sorted_take_drop[OF srtd, of 500] by blast
    then show "timestamp e \<le> timestamp k" by simp
  qed
  show "distinct (map row_id K)" using dist by (simp add: K_def distinct_map_filter)
qed

lemma map_row_id_numbered: "map row_id (numbered rs) = map Suc [0..<length rs]"
proof -
  have a: "map fst (zip [0..<length rs] rs) = [0..<length rs]" by simp
  have "map row_id (numbered rs) = map (Suc \<circ> fst) (zip [0..<length rs] rs)"
    unfolding numbered_def map_map by (rule map_cong) auto
  also have "\<dots> = map Suc (map fst (zip [0..<length rs] rs))" by (simp only: map_map)
  finally show ?thesis unfolding a .
qed

lemma numbered_snoc: "numbered (rs @ [r]) = numbered rs @ [r\<lparr>row_id := Suc (length rs)\<rparr>]"
  by (simp add: numbered_def)

lemma length_numbered: "length (numbered rs) = length rs"
  by (simp add: numbered_def)

lemma insert_all_snoc:
  "insert_all scan (rs @ [r]) = limitStoredMetrics scan True (db_insert (insert_all scan rs) r)"
  by (simp add: insert_all_def)

lemma distinct_numbered: "distinct (map row_id (numbered rs))"
  by (simp add: map_row_id_numbered distinct_map)

lemma row_id_numbered_le: "x \<in> set (numbered rs) \<Longrightarrow> row_id x \<le> length rs"
proof -
  assume "x \<in> set (numbered rs)"
  then have "row_id x \<in> set (map row_id (numbered rs))" by simp
  then show ?thesis unfolding map_row_id_numbered by auto
qed

lemma insert_all_invariant:
  assumes perm: "\<forall>t. mset (scan t) = mset t"
  shows "set (rows (insert_all scan rs)) \<subseteq> set (numbered rs) \<and>
         distinct (map row_id (rows (insert_all scan rs))) \<and>
         length (rows (insert_all scan rs)) = min (length rs) 500 \<and>
         seq (insert_all scan rs) = length rs \<and>
         (\<forall>k\<in>set (rows (insert_all scan rs)).
            \<forall>e\<in>set (numbered rs) - set (rows (insert_all scan rs)).
              timestamp e \<le> timestamp k)"
proof (induction rs rule: rev_induct)
  case Nil
  show ?case by (simp add: insert_all_def empty_db_def numbered_def)
next
  case (snoc r rs)
  define d where "d = insert_all scan rs"
  define n where "n = length rs"
  define new where "new = r\<lparr>row_id := Suc n\<rparr>"
  define T where "T = rows d @ [new]"
  define K where "K = filter (\<lambda>x. row_id x \<in> set (select_newest scan 500 T)) T"
  from snoc have sub: "set (rows d) \<subseteq> set (numbered rs)"
    and dist: "distinct (map row_id (rows d))"
    and len: "length (rows d) = min n 500"
    and sq: "seq d = n"
    and old: "\<forall>k\<in>set (rows d). \<forall>e\<in>set (numbered rs) - set (rows d). timestamp e \<le> timestamp k"
    by (simp_all add: d_def n_def)
  have ids: "\<forall>x\<in>set (rows d). row_id x \<le> n"
    using sub row_id_numbered_le by (auto simp: n_def)
  have "fold max (map row_id (rows d)) (seq d) = n"
    using fold_max_bounded[of "map row_id (rows d)" n] ids sq by simp
  then have ins: "db_insert d r = d\<lparr>rows := T, seq := Suc n\<rparr>"
    by (simp add: db_insert_def Let_def T_def new_def)
  have step: "insert_all scan (rs @ [r]) = d\<lparr>rows := K, seq := Suc n\<rparr>"
    by (simp add: insert_all_snoc ins limitStoredMetrics_def K_def flip: d_def)
  have num: "numbered (rs @ [r]) = numbered rs @ [new]"
    by (simp add: numbered_snoc new_def n_def)
  have new_id: "row_id new = Suc n" by (simp add: new_def)
  have new_fresh: "new \<notin> set (numbered rs)"
    using row_id_numbered_le[of new rs] new_id by (auto simp: n_def)
  have distT: "distinct (map row_id T)"
    using dist ids new_id by (auto simp: T_def)
  have pm: "mset (scan T) = mset T" using perm by simp
  note P = prune_props[of scan T, OF pm distT, folded K_def]
  have T_sub: "set T \<subseteq> set (numbered (rs @ [r]))"
    using sub by (auto simp: T_def num)
  have lenT: "length T = Suc (min n 500)" by (simp add: T_def len)
  have c1: "set K \<subseteq> set (numbered (rs @ [r]))" using P(1) T_sub by blast
  have c3: "length K = min (length (rs @ [r])) 500"
    using P(2) lenT by (simp add: n_def)
  have c5: "\<forall>k\<in>set K. \<forall>e\<in>set (numbered (rs @ [r])) - set K. timestamp e \<le> timestamp k"
  proof (intro ballI)
    fix k e assume k: "k \<in> set K" and e: "e \<in> set (numbered (rs @ [r])) - set K"
    show "timestamp e \<le> timestamp k"
    proof (cases "e \<in> set T")
      case True
      with e k P(3) show ?thesis by blast
    next
      case False
      then have e_old: "e \<in> set (numbered rs) - set (rows d)"
        using e by (auto simp: num T_def)
      from k P(1) have kT: "k \<in> set T" by blast
      show ?thesis
      proof (cases "k = new")
        case False
        with kT have "k \<in> set (rows d)" by (simp add: T_def)
        with old e_old show ?thesis by blast
      next
        case True
        have dr: "distinct (rows d)" using dist by (simp add: distinct_map)
        have dn: "distinct (numbered rs)" using distinct_numbered[of rs] by (simp add: distinct_map)
        have "set (rows d) \<subset> set (numbered rs)" using sub e_old by blast
        then have "card (set (rows d)) < card (set (numbered rs))"
          by (intro psubset_card_mono) simp_all
        then have "length (rows d) < n"
          using dr dn by (simp add: distinct_card length_numbered n_def)
        with len have l500: "length (rows d) = 500" by simp
        have dT: "distinct T" using distT by (simp add: distinct_map)
        have dK: "distinct K" using P(4) by (simp add: distinct_map)
        have "card (set K) < card (set T)"
          using dT dK P(2) lenT l500 len by (simp add: distinct_card)
        then have "\<not> set T \<subseteq> set K"
          using card_mono[of "set K" "set T"] by auto
        then have "set T - set K \<noteq> {}" by auto
        then obtain e' where e': "e' \<in> set T" "e' \<notin> set K" by blast
        with k True have "e' \<noteq> new" by blast
        with e'(1) have e'_old: "e' \<in> set (rows d)" by (simp add: T_def)
        from old e'_old e_old have "timestamp e \<le> timestamp e'" by blast
        moreover from P(3) k e' have "timestamp e' \<le> timestamp k" by blast
        ultimately show ?thesis by simp
      qed
    qed
  qed
  show ?case
    using c1 P(4) c3 c5 unfolding step by (simp add: n_def)
qed

lemma handleSimulate_not_forwarded:
  assumes "body = None \<or> body = Some JNull \<or>
           (\<exists>b. body = Some b \<and> \<not> includes_value validTypes (get_prop b ''type''))"
  shows "snd (handleSimulate env body s) = s"
  using assms
  by (auto simp: handleSimulate_def Let_def split: json.splits)

lemma handleSimulate_forwarded:
  fixes env :: w_env and t :: string
  assumes b: "b \<noteq> JNull" and ty: "get_prop b ''type'' = Some (JStr t)" and v: "t \<in> set validTypes"
  defines "sent \<equiv> JObj [(''type'', JStr t), (''simulationId'', JStr (make_simulationId env))]"
  shows "stub_calls (snd (handleSimulate env (Some b) s)) = stub_calls s @ [sent]"
    and "actor (snd (handleSimulate env (Some b) s)) =
           snd (handleSimulateRequest (actor_env env) (Some sent) (actor s))"
    and "db (snd (handleSimulate env (Some b) s)) = db s \<or>
         (\<exists>row. db (snd (handleSimulate env (Some b) s)) =
            limitStoredMetrics (scan_order env) (prune_ok env) (db_insert (db s) row))"
proof -
  have inc: "includes_value validTypes (get_prop b ''type'')"
    using ty v by (simp add: includes_value_def)
  have f: "do_fetch (actor_env env) ''POST'' ''/simulate'' (Some sent) (actor s) =
           handleSimulateRequest (actor_env env) (Some sent) (actor s)"
    by (simp add: do_fetch_def ends_with_def)
  obtain r a where ra: "handleSimulateRequest (actor_env env) (Some sent) (actor s) = (r, a)"
    by (cases "handleSimulateRequest (actor_env env) (Some sent) (actor s)")
  have u: "handleSimulate env (Some b) s =
    (let s1 = s\<lparr>actor := a, stub_calls := stub_calls s @ [sent]\<rparr>
     in case r of
          Pending \<Rightarrow> (Pending, s1)
        | Settled (Inl e) \<Rightarrow> (Settled (Inl e), s1)
        | Settled (Inr r) \<Rightarrow>
            if \<not> response_ok r
            then (Settled (Inr (WError (status_code r) ''Simulation failed''
                    (if error_message r \<noteq> [] then error_message r
                     else ''Durable Object failed to simulate traffic''))), s1)
            else (case r of
              SimulateOk sim m ex ts \<Rightarrow>
                if insert_ok env
                then (let s2 = s1\<lparr>db := db_insert (db s1)
                                   (to_row (make_simulationId env) t m ex ts)\<rparr>;
                          s3 = s2\<lparr>db := limitStoredMetrics (scan_order env)
                                   (prune_ok env) (db s2)\<rparr>
                      in (Settled (Inr (WSimulateOk (make_simulationId env) t m ex ts)), s3))
                else (Settled (Inr database_error), s1)
            | _ \<Rightarrow> (Settled (Inr database_error), s1)))"
    using b inc ty ra f
    by (cases b) (simp_all add: handleSimulate_def Let_def sent_def)
  show "stub_calls (snd (handleSimulate env (Some b) s)) = stub_calls s @ [sent]"
    unfolding u by (simp add: Let_def split: promise.splits sum.splits do_response.splits)
  show "actor (snd (handleSimulate env (Some b) s)) =
           snd (handleSimulateRequest (actor_env env) (Some sent) (actor s))"
    unfolding u ra by (simp add: Let_def split: promise.splits sum.splits do_response.splits)
  show "db (snd (handleSimulate env (Some b) s)) = db s \<or>
         (\<exists>row. db (snd (handleSimulate env (Some b) s)) =
            limitStoredMetrics (scan_order env) (prune_ok env) (db_insert (db s) row))"
    unfolding u by (auto simp: Let_def split: promise.splits sum.splits do_response.splits)
qed

lemma includes_value_cases:
  "includes_value validTypes v \<Longrightarrow> \<exists>t. v = Some (JStr t) \<and> t \<in> set validTypes"
  by (auto simp: includes_value_def split: option.splits json.splits)

lemma make_simulationId_form:
  "make_simulationId env \<noteq> [] \<and> take 4 (make_simulationId env) = ''sim-'' \<and>
   (\<exists>suffix. make_simulationId env = ''sim-'' @ show_int (w_clock env) @ ''-'' @ suffix \<and>
      length suffix \<le> 6 \<and> suffix = slice 2 8 (random36 env))"
  by (simp add: make_simulationId_def slice_def)

lemma sent_body_valid:
  assumes "t \<in> set validTypes"
  shows "includes_value validTypes (get_prop (JObj [(''type'', JStr t), (''simulationId'', JStr i)]) ''type'') \<and>
         is_string (get_prop (JObj [(''type'', JStr t), (''simulationId'', JStr i)]) ''simulationId'') \<and>
         get_prop (JObj [(''type'', JStr t), (''simulationId'', JStr i)]) ''simulationId'' = Some (JStr i)"
  using assms by (simp add: includes_value_def is_string_def)

lemma actor_receives_id:
  assumes "t \<in> set validTypes"
  shows "map_option sim_id (currentSimulation (snd (handleSimulateRequest env
            (Some (JObj [(''type'', JStr t), (''simulationId'', JStr i)])) w))) = Some i"
proof (cases "put_ok env")
  case True
  from simulate_ok_result[OF sent_body_valid[OF assms, THEN conjunct1]
        sent_body_valid[OF assms, THEN conjunct2, THEN conjunct1] True, of i w]
  show ?thesis by auto
next
  case False
  obtain sc where sc: "scenario_of t = Some sc"
    using scenario_of_valid[OF assms] by blast
  have "get_prop (JObj [(''type'', JStr t), (''simulationId'', JStr i)]) ''type'' = Some (JStr t)"
       "get_prop (JObj [(''type'', JStr t), (''simulationId'', JStr i)]) ''simulationId'' = Some (JStr i)"
    by simp_all
  from simulate_put_failure[OF this(1) assms sc this(2) False, of w]
  show ?thesis by simp
qed

lemma fold_max_ge_start: "(a::nat) \<le> fold max xs a"
proof (induction xs arbitrary: a)
  case Nil show ?case by simp
next
  case (Cons x xs)
  have "a \<le> max x a" by simp
  also have "\<dots> \<le> fold max xs (max x a)" by (rule Cons.IH)
  finally show ?case by simp
qed

lemma fold_max_ge_elem: "x \<in> set xs \<Longrightarrow> (x::nat) \<le> fold max xs a"
proof (induction xs arbitrary: a)
  case Nil then show ?case by simp
next
  case (Cons y ys)
  show ?case
  proof (cases "x = y")
    case True
    have "x \<le> max y a" using True by simp
    also have "\<dots> \<le> fold max ys (max y a)" by (rule fold_max_ge_start)
    finally show ?thesis by simp
  next
    case False
    with Cons.prems have "x \<in> set ys" by simp
    from Cons.IH[OF this] show ?thesis by simp
  qed
qed

lemma db_insert_distinct:
  assumes "distinct (map row_id (rows d))"
  shows "distinct (map row_id (rows (db_insert d r)))"
    and "length (rows (db_insert d r)) = Suc (length (rows d))"
proof -
  have "\<forall>x\<in>set (rows d). row_id x < Suc (fold max (map row_id (rows d)) (seq d))"
    using fold_max_ge_elem[of _ "map row_id (rows d)" "seq d"] by (auto simp: less_Suc_eq_le)
  then show "distinct (map row_id (rows (db_insert d r)))"
    using assms by (auto simp: db_insert_def Let_def)
  show "length (rows (db_insert d r)) = Suc (length (rows d))"
    by (simp add: db_insert_def Let_def)
qed

lemma insert_then_limit:
  assumes perm: "\<forall>t. mset (scan t) = mset t" and dist: "distinct (map row_id (rows d))"
  shows "length (rows (limitStoredMetrics scan True (db_insert d r))) = min 500 (Suc (length (rows d))) \<and>
     set (rows (limitStoredMetrics scan True (db_insert d r))) \<subseteq> set (rows (db_insert d r)) \<and>
     (\<forall>k\<in>set (rows (limitStoredMetrics scan True (db_insert d r))).
        \<forall>e\<in>set (rows (db_insert d r)) - set (rows (limitStoredMetrics scan True (db_insert d r))).
          timestamp e \<le> timestamp k)"
proof -
  have pm: "mset (scan (rows (db_insert d r))) = mset (rows (db_insert d r))" using perm by simp
  note P = prune_props[of scan "rows (db_insert d r)", OF pm db_insert_distinct(1)[OF dist]]
  have rw: "rows (limitStoredMetrics scan True (db_insert d r)) =
      filter (\<lambda>x. row_id x \<in> set (select_newest scan 500 (rows (db_insert d r)))) (rows (db_insert d r))"
    by (simp add: limitStoredMetrics_def)
  show ?thesis
    unfolding rw using P(1) P(2) P(3) db_insert_distinct(2)[OF dist, of r] by simp
qed

lemma evicted_count:
  assumes perm: "\<forall>t. mset (scan t) = mset t"
  shows "card (set (numbered rs) - set (rows (insert_all scan rs))) = length rs - 500"
proof -
  note I = insert_all_invariant[OF perm, of rs]
  have dn: "distinct (numbered rs)" using distinct_numbered[of rs] by (simp add: distinct_map)
  have dr: "distinct (rows (insert_all scan rs))" using I by (simp add: distinct_map)
  have "card (set (numbered rs) - set (rows (insert_all scan rs))) =
        card (set (numbered rs)) - card (set (rows (insert_all scan rs)))"
    using I by (intro card_Diff_subset) simp_all
  also have "\<dots> = length rs - min (length rs) 500"
    using dn dr I by (simp add: distinct_card length_numbered)
  finally show ?thesis by simp
qed

lemma timestamp_numbered: "map timestamp (numbered rs) = map timestamp rs"
proof -
  have a: "map snd (zip [0..<length rs] rs) = rs" by simp
  have "map timestamp (numbered rs) = map (timestamp \<circ> snd) (zip [0..<length rs] rs)"
    unfolding numbered_def map_map by (rule map_cong) auto
  also have "\<dots> = map timestamp (map snd (zip [0..<length rs] rs))" by (simp only: map_map)
  finally show ?thesis unfolding a .
qed

text \<open>With strictly increasing timestamps the rows that are kept are the newest ones.\<close>

lemma newest_kept:
  assumes perm: "\<forall>t. mset (scan t) = mset t"
    and inc: "sorted_wrt (<) (map timestamp rs)"
  shows "set (rows (insert_all scan rs)) = set (drop (length rs - 500) (numbered rs))"
proof -
  define A where "A = numbered rs"
  define n where "n = length rs"
  define K where "K = set (rows (insert_all scan rs))"
  define D where "D = set (drop (n - 500) A)"
  note I = insert_all_invariant[OF perm, of rs]
  have KA: "K \<subseteq> set A" using I by (simp add: K_def A_def)
  have dA: "distinct A" using distinct_numbered[of rs] by (simp add: distinct_map A_def)
  have dr: "distinct (rows (insert_all scan rs))" using I by (simp add: distinct_map)
  have cK: "card K = min n 500" using I dr by (simp add: K_def distinct_card n_def)
  have "card D = length (drop (n - 500) A)"
    unfolding D_def using dA by (intro distinct_card) simp
  then have cD: "card D = min n 500" by (simp add: A_def length_numbered n_def)
  have old: "\<forall>k\<in>K. \<forall>e\<in>set A - K. timestamp e \<le> timestamp k"
    using I by (simp add: K_def A_def)
  have "map timestamp A = map timestamp rs" by (simp only: A_def timestamp_numbered)
  with inc have "sorted_wrt (<) (map timestamp A)" by simp
  then have "sorted_wrt (\<lambda>a b. timestamp a < timestamp b) A"
    by (simp only: sorted_wrt_map)
  then have "sorted_wrt (\<lambda>a b. timestamp a < timestamp b) (take (n - 500) A @ drop (n - 500) A)"
    by simp
  then have lt: "\<forall>a\<in>set (take (n - 500) A). \<forall>b\<in>D. timestamp a < timestamp b"
    unfolding sorted_wrt_append D_def by blast
  have split: "set A = set (take (n - 500) A) \<union> D"
    unfolding D_def using set_append[of "take (n - 500) A" "drop (n - 500) A"] by simp
  have DK: "D \<subseteq> K"
  proof (rule ccontr)
    assume "\<not> D \<subseteq> K"
    then obtain x where x: "x \<in> D" "x \<notin> K" by blast
    then have xA: "x \<in> set A - K" using split by blast
    have "K \<subseteq> D - {x}"
    proof
      fix k assume k: "k \<in> K"
      with old xA have le: "timestamp x \<le> timestamp k" by blast
      from k KA have "k \<in> set A" by blast
      then have "k \<in> D"
      proof (rule contrapos_pp)
        assume "k \<notin> D"
        with \<open>k \<in> set A\<close> split have "k \<in> set (take (n - 500) A)" by blast
        with lt x(1) have "timestamp k < timestamp x" by blast
        with le show "k \<notin> set A" by simp
      qed
      moreover from k x(2) have "k \<noteq> x" by blast
      ultimately show "k \<in> D - {x}" by blast
    qed
    then have "card K \<le> card (D - {x})"
      by (intro card_mono) (simp_all add: D_def)
    also have "card (D - {x}) < card D"
      using x(1) by (intro card_Diff1_less) (simp_all add: D_def)
    finally show False using cK cD by simp
  qed
  have "D = K"
    using DK cK cD by (intro card_subset_eq) (simp_all add: K_def)
  then show ?thesis by (simp add: K_def D_def A_def n_def)
qed

text \<open>With equal timestamps and a scan in rowid order the rows that are kept are the
  first ones inserted.\<close>

lemma filter_ids_take:
  assumes "distinct (map f xs)"
  shows "filter (\<lambda>x. f x \<in> set (map f (take n xs))) xs = take n xs"
proof -
  have d: "distinct (map f (take n xs) @ map f (drop n xs))"
    using assms by (simp flip: map_append)
  have a: "filter (\<lambda>x. f x \<in> set (map f (take n xs))) (take n xs) = take n xs"
    by (rule filter_True) simp
  have b: "filter (\<lambda>x. f x \<in> set (map f (take n xs))) (drop n xs) = []"
    using d by (auto simp: filter_empty_conv)
  have "filter (\<lambda>x. f x \<in> set (map f (take n xs))) (take n xs @ drop n xs) = take n xs"
    unfolding filter_append a b by simp
  then show ?thesis by simp
qed

lemma oldest_kept_on_ties:
  "rows (insert_all (\<lambda>t. t) (replicate n r)) = take 500 (numbered (replicate n r)) \<and>
   seq (insert_all (\<lambda>t. t) (replicate n r)) = n"
proof (induction n)
  case 0
  show ?case by (simp add: insert_all_def empty_db_def numbered_def)
next
  case (Suc n)
  define d where "d = insert_all (\<lambda>t. t) (replicate n r)"
  define A where "A = numbered (replicate n r)"
  define new where "new = r\<lparr>row_id := Suc n\<rparr>"
  define T where "T = take 500 A @ [new]"
  from Suc have rd: "rows d = take 500 A" and sq: "seq d = n" by (simp_all add: d_def A_def)
  have rep: "replicate (Suc n) r = replicate n r @ [r]"
    by (simp add: replicate_append_same)
  have num: "numbered (replicate (Suc n) r) = A @ [new]"
    unfolding rep by (simp add: numbered_snoc A_def new_def)
  have idsA: "\<forall>x\<in>set A. row_id x \<le> n"
    using row_id_numbered_le[of _ "replicate n r"] by (auto simp: A_def)
  have ids: "\<forall>x\<in>set (rows d). row_id x \<le> n"
    using idsA in_set_takeD[of _ 500 A] by (auto simp: rd)
  have "fold max (map row_id (rows d)) (seq d) = n"
    using fold_max_bounded[of "map row_id (rows d)" n] ids sq by simp
  then have ins: "db_insert d r = d\<lparr>rows := T, seq := Suc n\<rparr>"
    by (simp add: db_insert_def Let_def T_def new_def rd)
  have tsA: "\<forall>x\<in>set A. timestamp x = timestamp r"
  proof
    fix x assume "x \<in> set A"
    then have "timestamp x \<in> set (map timestamp A)" by simp
    then show "timestamp x = timestamp r"
      unfolding A_def timestamp_numbered by simp
  qed
  have tsT: "\<forall>x\<in>set T. timestamp x = timestamp r"
    using tsA in_set_takeD[of _ 500 A] by (auto simp: T_def new_def)
  have "map (\<lambda>x. - timestamp x) T = map (\<lambda>x. - timestamp r) T"
    using tsT by (intro map_cong) auto
  then have "map (\<lambda>x. - timestamp x) T = replicate (length T) (- timestamp r)"
    by (simp only: map_replicate_const)
  then have "sorted (map (\<lambda>x. - timestamp x) T)" by simp
  then have srt: "sort_key (\<lambda>x. - timestamp x) T = T" by (rule sort_key_id_if_sorted)
  have dA: "distinct (map row_id A)" using distinct_numbered[of "replicate n r"] by (simp add: A_def)
  have "distinct (map row_id (take 500 A))"
    using dA by (simp add: distinct_take flip: take_map)
  moreover have "Suc n \<notin> row_id ` set (take 500 A)"
  proof
    assume "Suc n \<in> row_id ` set (take 500 A)"
    then obtain x where "x \<in> set (take 500 A)" "row_id x = Suc n" by auto
    with idsA in_set_takeD[of x 500 A] show False by auto
  qed
  ultimately have dT: "distinct (map row_id T)"
    by (simp add: T_def new_def)
  have "rows (limitStoredMetrics (\<lambda>t. t) True (db_insert d r)) =
        filter (\<lambda>x. row_id x \<in> set (map row_id (take 500 T))) T"
    by (simp add: limitStoredMetrics_def select_newest_def ins srt)
  also have "\<dots> = take 500 T" using dT by (rule filter_ids_take)
  also have "\<dots> = take 500 (A @ [new])"
  proof (cases "500 \<le> length A")
    case True
    then show ?thesis unfolding T_def take_append by simp
  next
    case False
    then show ?thesis unfolding T_def by simp
  qed
  finally have r: "rows (limitStoredMetrics (\<lambda>t. t) True (db_insert d r)) =
        take 500 (numbered (replicate (Suc n) r))"
    by (simp only: num)
  have s: "seq (limitStoredMetrics (\<lambda>t. t) True (db_insert d r)) = Suc n"
    by (simp add: limitStoredMetrics_def ins)
  have eq: "insert_all (\<lambda>t. t) (replicate (Suc n) r) =
        limitStoredMetrics (\<lambda>t. t) True (db_insert d r)"
    by (simp only: rep insert_all_snoc d_def)
  show ?case unfolding eq using r s by (intro conjI)
qed

lemma rows_510_increasing: "sorted_wrt (<) (map timestamp rows_510)"
proof -
  have "map timestamp rows_510 = map int [0..<510]"
    by (simp add: rows_510_def row_sample_def to_row_def)
  moreover have "sorted_wrt (<) (map int [0..<510])"
    by (simp only: sorted_wrt_map of_nat_less_iff sorted_wrt_upt)
  ultimately show ?thesis by simp
qed

lemma handleSimulate_cases:
  "snd (handleSimulate env body s) = s \<or>
   (\<exists>b t. body = Some b \<and> b \<noteq> JNull \<and> get_prop b ''type'' = Some (JStr t) \<and> t \<in> set validTypes)"
proof (cases body)
  case None
  then show ?thesis using handleSimulate_not_forwarded[of body env s] by simp
next
  case (Some b)
  show ?thesis
  proof (cases "b = JNull \<or> \<not> includes_value validTypes (get_prop b ''type'')")
    case True
    then show ?thesis using handleSimulate_not_forwarded[of body env s] Some by auto
  next
    case False
    then show ?thesis using Some includes_value_cases[of "get_prop b ''type''"] by auto
  qed
qed

lemma handleSimulate_db:
  "db (snd (handleSimulate env body s)) = db s \<or>
   (\<exists>row. db (snd (handleSimulate env body s)) =
      limitStoredMetrics (scan_order env) (prune_ok env) (db_insert (db s) row))"
  using handleSimulate_cases[of env body s] handleSimulate_forwarded(3)[of _ _ env s]
  by metis

text \<open>
  C9 (as amended). Whatever order the engine visits rows of equal timestamp in: after
  any number of inserts into the empty table, each followed by a successful
  \<open>limitStoredMetrics\<close>, the table holds \<open>min n 500\<close> of the \<open>n\<close> inserted rows, and no
  evicted row has a later timestamp than a row that is kept. When the timestamps of
  the inserted rows increase strictly, the rows kept are exactly the last 500
  inserted, so that 510 inserts leave 500 rows and evict the 10 oldest. For any table
  with distinct ids, one insert followed by a successful \<open>limitStoredMetrics\<close> leaves at
  most 500 rows, none with an earlier timestamp than a deleted one. \<open>handleSimulate\<close>
  changes the table in no other way than by such an insert followed by
  \<open>limitStoredMetrics\<close>. Which of several rows of equal timestamp are evicted is left to
  the engine.
\<close>

theorem history_retention:
  assumes "\<forall>t. mset (scan t) = mset t"
  shows "length (rows (insert_all scan rs)) = min (length rs) 500 \<and>
     set (rows (insert_all scan rs)) \<subseteq> set (numbered rs) \<and>
     card (set (numbered rs) - set (rows (insert_all scan rs))) = length rs - 500 \<and>
     (\<forall>k\<in>set (rows (insert_all scan rs)).
        \<forall>e\<in>set (numbered rs) - set (rows (insert_all scan rs)). timestamp e \<le> timestamp k) \<and>
     (sorted_wrt (<) (map timestamp rs) \<longrightarrow>
        set (rows (insert_all scan rs)) = set (drop (length rs - 500) (numbered rs))) \<and>
     (length rs = 510 \<longrightarrow>
        length (rows (insert_all scan rs)) = 500 \<and>
        card (set (numbered rs) - set (rows (insert_all scan rs))) = 10) \<and>
     (distinct (map row_id (rows d)) \<longrightarrow>
        length (rows (limitStoredMetrics scan True (db_insert d r))) = min 500 (Suc (length (rows d))) \<and>
        set (rows (limitStoredMetrics scan True (db_insert d r))) \<subseteq> set (rows (db_insert d r)) \<and>
        (\<forall>k\<in>set (rows (limitStoredMetrics scan True (db_insert d r))).
           \<forall>e\<in>set (rows (db_insert d r)) - set (rows (limitStoredMetrics scan True (db_insert d r))).
             timestamp e \<le> timestamp k)) \<and>
     (db (snd (handleSimulate env body s)) = db s \<or>
      (\<exists>row. db (snd (handleSimulate env body s)) =
         limitStoredMetrics (scan_order env) (prune_ok env) (db_insert (db s) row)))"
proof -
  note I = insert_all_invariant[OF assms, of rs]
  note E = evicted_count[OF assms, of rs]
  have a: "length (rows (insert_all scan rs)) = min (length rs) 500" using I by blast
  have b: "set (rows (insert_all scan rs)) \<subseteq> set (numbered rs)" using I by blast
  have c: "\<forall>k\<in>set (rows (insert_all scan rs)).
        \<forall>e\<in>set (numbered rs) - set (rows (insert_all scan rs)). timestamp e \<le> timestamp k"
    using I by blast
  have n: "sorted_wrt (<) (map timestamp rs) \<longrightarrow>
        set (rows (insert_all scan rs)) = set (drop (length rs - 500) (numbered rs))"
    using newest_kept[OF assms] by blast
  have d: "length rs = 510 \<longrightarrow>
        length (rows (insert_all scan rs)) = 500 \<and>
        card (set (numbered rs) - set (rows (insert_all scan rs))) = 10"
    using a E by simp
  have e: "distinct (map row_id (rows d)) \<longrightarrow>
        length (rows (limitStoredMetrics scan True (db_insert d r))) = min 500 (Suc (length (rows d))) \<and>
        set (rows (limitStoredMetrics scan True (db_insert d r))) \<subseteq> set (rows (db_insert d r)) \<and>
        (\<forall>k\<in>set (rows (limitStoredMetrics scan True (db_insert d r))).
           \<forall>e\<in>set (rows (db_insert d r)) - set (rows (limitStoredMetrics scan True (db_insert d r))).
             timestamp e \<le> timestamp k)"
    using insert_then_limit[OF assms] by blast
  from a b E c n d e handleSimulate_db[of env body s] show ?thesis by blast
qed

theorem history_retention_witness:
  "(\<forall>t::history_row list. mset ((\<lambda>t. t) t) = mset t) \<and>
   length rows_510 = 510 \<and>
   sorted_wrt (<) (map timestamp rows_510) \<and>
   distinct (map row_id (rows empty_db)) \<and>
   length (rows (insert_all (\<lambda>t. t) rows_510)) = 500 \<and>
   card (set (numbered rows_510) - set (rows (insert_all (\<lambda>t. t) rows_510))) = 10 \<and>
   set (rows (insert_all (\<lambda>t. t) rows_510)) = set (drop 10 (numbered rows_510)) \<and>
   length (rows (limitStoredMetrics (\<lambda>t. t) True (db_insert empty_db (row_sample 7)))) = 1"
proof -
  have h: "\<forall>t::history_row list. mset ((\<lambda>t. t) t) = mset t" by simp
  have l: "length rows_510 = 510" by (simp add: rows_510_def)
  have i: "sorted_wrt (<) (map timestamp rows_510)" by (rule rows_510_increasing)
  have e: "distinct (map row_id (rows empty_db))" by (simp add: empty_db_def)
  from history_retention[OF h, of rows_510 empty_db "row_sample 7"] l i e
  have r: "length (rows (insert_all (\<lambda>t. t) rows_510)) = 500"
    and c: "card (set (numbered rows_510) - set (rows (insert_all (\<lambda>t. t) rows_510))) = 10"
    and s: "set (rows (insert_all (\<lambda>t. t) rows_510)) =
            set (drop (length rows_510 - 500) (numbered rows_510))"
    and o: "length (rows (limitStoredMetrics (\<lambda>t. t) True (db_insert empty_db (row_sample 7)))) =
            min 500 (Suc (length (rows empty_db)))"
    by blast+
  have s': "set (rows (insert_all (\<lambda>t. t) rows_510)) = set (drop 10 (numbered rows_510))"
    using s by (simp only: l) simp
  have o': "length (rows (limitStoredMetrics (\<lambda>t. t) True (db_insert empty_db (row_sample 7)))) = 1"
    using o by (simp add: empty_db_def)
  from h l i e r c s' o' show ?thesis by (intro conjI)
qed

text \<open>
  C9 as stated fails: 510 rows inserted with the same timestamp, the engine visiting
  rows in rowid order, leave the 500 rows inserted first; the oldest row (id 1) is
  still in the table and the newest (id 510) has been evicted.
\<close>

theorem eviction_on_ties_counterexample:
  "length rows_same_time = 510 \<and>
   set (map timestamp rows_same_time) = {1000} \<and>
   length (rows (insert_all (\<lambda>t. t) rows_same_time)) = 500 \<and>
   1 \<in> set (map row_id (rows (insert_all (\<lambda>t. t) rows_same_time))) \<and>
   510 \<notin> set (map row_id (rows (insert_all (\<lambda>t. t) rows_same_time)))"
proof -
  have r: "rows (insert_all (\<lambda>t. t) rows_same_time) = take 500 (numbered rows_same_time)"
    using oldest_kept_on_ties[of 510 "row_sample 1000"] by (simp only: rows_same_time_def)
  have l: "length rows_same_time = 510" by (simp add: rows_same_time_def)
  have "map row_id (take 500 (numbered rows_same_time)) =
        take 500 (map row_id (numbered rows_same_time))"
    by (simp only: take_map)
  also have "\<dots> = take 500 (map Suc [0..<510])" by (simp only: map_row_id_numbered l)
  also have "\<dots> = map Suc (take 500 [0..<510])" by (simp only: take_map)
  also have "\<dots> = map Suc [0..<500]" by (simp del: upt_Suc)
  finally have ids: "map row_id (rows (insert_all (\<lambda>t. t) rows_same_time)) = map Suc [0..<500]"
    by (simp only: r)
  have t: "set (map timestamp rows_same_time) = {1000}"
    by (simp add: rows_same_time_def row_sample_def to_row_def)
  have n: "length (rows (insert_all (\<lambda>t. t) rows_same_time)) = 500"
    using arg_cong[OF ids, of length] by simp
  have a: "1 \<in> set (map row_id (rows (insert_all (\<lambda>t. t) rows_same_time)))"
    unfolding ids by (simp del: upt_Suc)
  have b: "510 \<notin> set (map row_id (rows (insert_all (\<lambda>t. t) rows_same_time)))"
    unfolding ids by (auto simp del: upt_Suc)
  from l t n a b show ?thesis by blast
qed

lemma get_prop_ignores_other_key:
  "k \<noteq> k' \<Longrightarrow> get_prop (JObj ((k', v) # kvs)) k = get_prop (JObj kvs) k"
  by (simp add: map_add_def split: option.splits)

text \<open>
  C10. \<open>handleSimulate\<close> either leaves everything as it was, or sends the Durable Object
  exactly one body, made of a valid type and the id \<open>sim-<Date.now()>-<suffix>\<close> with
  the suffix the (at most six) characters 2 to 7 of \<open>Math.random().toString(36)\<close>; the
  id is never empty, it is the id of the simulation the object then holds, and a
  \<open>simulationId\<close> in the request body has no influence on the outcome.
\<close>

theorem router_generates_id:
  "(snd (handleSimulate env body s) = s \<or>
    (\<exists>t. t \<in> set validTypes \<and>
       stub_calls (snd (handleSimulate env body s)) =
         stub_calls s @ [JObj [(''type'', JStr t), (''simulationId'', JStr (make_simulationId env))]] \<and>
       actor (snd (handleSimulate env body s)) =
         snd (handleSimulateRequest (actor_env env)
           (Some (JObj [(''type'', JStr t), (''simulationId'', JStr (make_simulationId env))]))
           (actor s)) \<and>
       map_option sim_id (currentSimulation (actor (snd (handleSimulate env body s)))) =
         Some (make_simulationId env))) \<and>
   make_simulationId env \<noteq> [] \<and>
   make_simulationId env = ''sim-'' @ show_int (w_clock env) @ ''-'' @ slice 2 8 (random36 env) \<and>
   length (slice 2 8 (random36 env)) \<le> 6 \<and>
   handleSimulate env (Some (JObj ((''simulationId'', v) # kvs))) s =
     handleSimulate env (Some (JObj kvs)) s"
proof -
  have a: "snd (handleSimulate env body s) = s \<or>
    (\<exists>t. t \<in> set validTypes \<and>
       stub_calls (snd (handleSimulate env body s)) =
         stub_calls s @ [JObj [(''type'', JStr t), (''simulationId'', JStr (make_simulationId env))]] \<and>
       actor (snd (handleSimulate env body s)) =
         snd (handleSimulateRequest (actor_env env)
           (Some (JObj [(''type'', JStr t), (''simulationId'', JStr (make_simulationId env))]))
           (actor s)) \<and>
       map_option sim_id (currentSimulation (actor (snd (handleSimulate env body s)))) =
         Some (make_simulationId env))"
  proof (cases "snd (handleSimulate env body s) = s")
    case True then show ?thesis by simp
  next
    case False
    then obtain b t where b: "body = Some b" "b \<noteq> JNull" "get_prop b ''type'' = Some (JStr t)"
        "t \<in> set validTypes"
      using handleSimulate_cases[of env body s] by blast
    note F = handleSimulate_forwarded[OF b(2) b(3) b(4), of env s]
    have "map_option sim_id (currentSimulation (actor (snd (handleSimulate env body s)))) =
         Some (make_simulationId env)"
      unfolding b(1) F(2) by (rule actor_receives_id[OF b(4)])
    with F(1) F(2) b(1) b(4) show ?thesis by blast
  qed
  have c: "handleSimulate env (Some (JObj ((''simulationId'', v) # kvs))) s =
     handleSimulate env (Some (JObj kvs)) s"
  proof -
    have "get_prop (JObj ((''simulationId'', v) # kvs)) ''type'' = get_prop (JObj kvs) ''type''"
      by (rule get_prop_ignores_other_key) simp
    then show ?thesis by (simp add: handleSimulate_def Let_def del: get_prop.simps)
  qed
  from a c make_simulationId_form[of env] show ?thesis
    by (simp add: make_simulationId_def slice_def)
qed

theorem router_generates_id_witness:
  "make_simulationId env_router = ''sim-999-k3j5h2'' \<and>
   stub_calls (snd (handleSimulate env_router (Some body_with_id) state_empty)) =
     [JObj [(''type'', JStr ''spike''), (''simulationId'', JStr ''sim-999-k3j5h2'')]] \<and>
   map_option sim_id
     (currentSimulation (actor (snd (handleSimulate env_router (Some body_with_id) state_empty))))
     = Some ''sim-999-k3j5h2'' \<and>
   handleSimulate env_router (Some body_with_id) state_empty =
     handleSimulate env_router (Some (JObj [(''type'', JStr ''spike'')])) state_empty"
proof -
  have i: "make_simulationId env_router = ''sim-999-k3j5h2''"
    by (simp add: make_simulationId_def env_router_def show_int_def digit_char_def slice_def)
  have n: "stub_calls (snd (handleSimulate env_router (Some body_with_id) state_empty)) \<noteq> []"
    by (simp add: handleSimulate_def body_with_id_def Let_def includes_value_def validTypes_def
          split_beta split: promise.splits sum.splits do_response.splits)
  then have ne: "snd (handleSimulate env_router (Some body_with_id) state_empty) \<noteq> state_empty"
    by (auto simp: state_empty_def)
  have ty: "get_prop body_with_id ''type'' = Some (JStr ''spike'')" by (simp add: body_with_id_def)
  from router_generates_id[of env_router "Some body_with_id" state_empty
        "JStr ''mine''" "[(''type'', JStr ''spike'')]"] ne
  obtain t where t: "stub_calls (snd (handleSimulate env_router (Some body_with_id) state_empty)) =
         stub_calls state_empty @ [JObj [(''type'', JStr t), (''simulationId'', JStr (make_simulationId env_router))]]"
     "map_option sim_id (currentSimulation (actor (snd (handleSimulate env_router (Some body_with_id) state_empty)))) =
         Some (make_simulationId env_router)"
     "handleSimulate env_router (Some (JObj ((''simulationId'', JStr ''mine'') # [(''type'', JStr ''spike'')]))) state_empty =
       handleSimulate env_router (Some (JObj [(''type'', JStr ''spike'')])) state_empty"
    by blast
  have "t = ''spike''"
  proof -
    have "stub_calls (snd (handleSimulate env_router (Some body_with_id) state_empty)) =
       stub_calls state_empty @ [JObj [(''type'', JStr ''spike''), (''simulationId'', JStr (make_simulationId env_router))]]"
      by (rule handleSimulate_forwarded(1)) (simp_all add: body_with_id_def validTypes_def)
    with t(1) show ?thesis by simp
  qed
  with t i show ?thesis by (simp add: state_empty_def body_with_id_def)
qed

end
